theory Spec2Isabelle
  imports Complex_Main
begin

section \<open>JavaScript numbers\<close>

text \<open>
  The strategy computes on JavaScript numbers. A number is modelled as NaN, one of the two
  infinities, or a finite value. Finite values are exact rationals: the rounding of binary
  floating point, overflow of a finite result to an infinity and the sign of zero are not
  modelled. Everything else follows the language: arithmetic with NaN gives NaN, every
  comparison with NaN is false, a finite non-zero value divided by zero is an infinity.
  A string that is only ever read through \<open>parseFloat\<close> is represented by the number
  it parses to, which may be NaN.
\<close>

datatype jsnum = NaN | NegInf | Fin rat | PosInf

fun jneg :: "jsnum \<Rightarrow> jsnum" where
  "jneg NaN = NaN"
| "jneg NegInf = PosInf"
| "jneg (Fin x) = Fin (- x)"
| "jneg PosInf = NegInf"

text \<open>\<open>a + b\<close>\<close>

fun jadd :: "jsnum \<Rightarrow> jsnum \<Rightarrow> jsnum" where
  "jadd (Fin x) (Fin y) = Fin (x + y)"
| "jadd NaN b = NaN"
| "jadd a NaN = NaN"
| "jadd PosInf NegInf = NaN"
| "jadd NegInf PosInf = NaN"
| "jadd PosInf b = PosInf"
| "jadd a PosInf = PosInf"
| "jadd NegInf b = NegInf"
| "jadd a NegInf = NegInf"

text \<open>\<open>a - b\<close>\<close>

definition jsub :: "jsnum \<Rightarrow> jsnum \<Rightarrow> jsnum" where
  "jsub a b = jadd a (jneg b)"

text \<open>The sign of a rational as an infinity of that sign; zero times infinity is NaN.\<close>

definition signed_inf :: "rat \<Rightarrow> jsnum \<Rightarrow> jsnum" where
  "signed_inf x w = (if x = 0 then NaN else if 0 < x then w else jneg w)"

text \<open>\<open>a * b\<close>\<close>

fun jmul :: "jsnum \<Rightarrow> jsnum \<Rightarrow> jsnum" where
  "jmul (Fin x) (Fin y) = Fin (x * y)"
| "jmul NaN b = NaN"
| "jmul a NaN = NaN"
| "jmul (Fin x) PosInf = signed_inf x PosInf"
| "jmul (Fin x) NegInf = signed_inf x NegInf"
| "jmul PosInf (Fin y) = signed_inf y PosInf"
| "jmul NegInf (Fin y) = signed_inf y NegInf"
| "jmul PosInf PosInf = PosInf"
| "jmul NegInf NegInf = PosInf"
| "jmul PosInf NegInf = NegInf"
| "jmul NegInf PosInf = NegInf"

text \<open>\<open>a / b\<close>; the zero divisor is the positive zero.\<close>

fun jdiv :: "jsnum \<Rightarrow> jsnum \<Rightarrow> jsnum" where
  "jdiv (Fin x) (Fin y) =
     (if y = 0 then (if x = 0 then NaN else if 0 < x then PosInf else NegInf)
      else Fin (x / y))"
| "jdiv NaN b = NaN"
| "jdiv a NaN = NaN"
| "jdiv (Fin x) PosInf = Fin 0"
| "jdiv (Fin x) NegInf = Fin 0"
| "jdiv PosInf (Fin y) = (if 0 \<le> y then PosInf else NegInf)"
| "jdiv NegInf (Fin y) = (if 0 \<le> y then NegInf else PosInf)"
| "jdiv PosInf b = NaN"
| "jdiv NegInf b = NaN"

text \<open>\<open>a < b\<close>\<close>

fun jlt :: "jsnum \<Rightarrow> jsnum \<Rightarrow> bool" where
  "jlt (Fin x) (Fin y) = (x < y)"
| "jlt NaN b = False"
| "jlt a NaN = False"
| "jlt PosInf b = False"
| "jlt a NegInf = False"
| "jlt NegInf b = True"
| "jlt a PosInf = True"

text \<open>\<open>a > b\<close>\<close>

definition jgt :: "jsnum \<Rightarrow> jsnum \<Rightarrow> bool" where
  "jgt a b = jlt b a"

text \<open>\<open>a <= b\<close>\<close>

fun jle :: "jsnum \<Rightarrow> jsnum \<Rightarrow> bool" where
  "jle (Fin x) (Fin y) = (x \<le> y)"
| "jle NaN b = False"
| "jle a NaN = False"
| "jle NegInf b = True"
| "jle a PosInf = True"
| "jle PosInf b = False"
| "jle a NegInf = False"

text \<open>\<open>a >= b\<close>\<close>

definition jge :: "jsnum \<Rightarrow> jsnum \<Rightarrow> bool" where
  "jge a b = jle b a"

text \<open>\<open>a === b\<close> on numbers: NaN is not equal to itself.\<close>

definition jeq :: "jsnum \<Rightarrow> jsnum \<Rightarrow> bool" where
  "jeq a b = (a \<noteq> NaN \<and> b \<noteq> NaN \<and> a = b)"

text \<open>\<open>Math.max(a, b)\<close> and \<open>Math.min(a, b)\<close>: NaN when an argument is NaN.\<close>

definition Math_max :: "jsnum \<Rightarrow> jsnum \<Rightarrow> jsnum" where
  "Math_max a b = (if a = NaN \<or> b = NaN then NaN else if jlt a b then b else a)"

definition Math_min :: "jsnum \<Rightarrow> jsnum \<Rightarrow> jsnum" where
  "Math_min a b = (if a = NaN \<or> b = NaN then NaN else if jlt b a then b else a)"

text \<open>
  \<open>Math.min(...xs)\<close> and \<open>Math.max(...xs)\<close> on a spread array: with no argument
  they are \<open>Infinity\<close> and \<open>-Infinity\<close>.
\<close>

definition Math_min_list :: "jsnum list \<Rightarrow> jsnum" where
  "Math_min_list xs = foldl Math_min PosInf xs"

definition Math_max_list :: "jsnum list \<Rightarrow> jsnum" where
  "Math_max_list xs = foldl Math_max NegInf xs"

text \<open>
  \<open>x.toFixed(2)\<close>: the decimal text of \<open>x\<close> with two fraction digits, the nearest
  one, and of two equally near the larger in magnitude. The text is represented by the
  number it denotes; NaN and the infinities print as their names. (From \<open>1e21\<close> on the
  method prints the number unrounded; a double of that size is an integer, so the value
  denoted is the same.)
\<close>

definition round2 :: "rat \<Rightarrow> rat" where
  "round2 x = (if x < 0 then - (of_int \<lfloor>- x * 100 + 1 / 2\<rfloor> / 100)
               else of_int \<lfloor>x * 100 + 1 / 2\<rfloor> / 100)"

fun toFixed2 :: "jsnum \<Rightarrow> jsnum" where
  "toFixed2 (Fin x) = Fin (round2 x)"
| "toFixed2 a = a"

section \<open>Indicator helpers\<close>

text \<open>
  \<open>calcEMAArray\<close>: the loop \<open>for (let i = 1; i < prices.length; i++)\<close> pushes one
  value per round onto \<open>emaArray\<close>; the read \<open>emaArray[i-1]\<close> is in range because
  the array holds \<open>i\<close> values when round \<open>i\<close> starts.
\<close>

function calcEMAArray_loop :: "jsnum list \<Rightarrow> jsnum \<Rightarrow> nat \<Rightarrow> jsnum list \<Rightarrow> jsnum list" where
  "calcEMAArray_loop prices k i emaArray =
     (if i < length prices
      then (let val = (if i = 0 then prices ! 0
                       else jadd (jmul (prices ! i) k)
                                 (jmul (emaArray ! (i - 1)) (jsub (Fin 1) k)))
            in calcEMAArray_loop prices k (i + 1) (emaArray @ [val]))
      else emaArray)"
  by pat_completeness auto
termination
  by (relation "measure (\<lambda>(prices, k, i, emaArray). length prices - i)") auto

definition calcEMAArray :: "jsnum list \<Rightarrow> jsnum \<Rightarrow> jsnum list" where
  "calcEMAArray prices period =
     (if length prices = 0 then []
      else (let k = jdiv (Fin 2) (jadd period (Fin 1))
            in calcEMAArray_loop prices k 1 [prices ! 0]))"

section \<open>Data model\<close>

text \<open>
  \<open>CandleData\<close>: the fields \<open>ts\<close>, \<open>o\<close>, \<open>h\<close>, \<open>l\<close>, \<open>c\<close>, \<open>vol\<close> of a
  candle. They are strings on the wire; each is held as the number the code parses it to
  (\<open>parseInt\<close> for \<open>ts\<close>, \<open>parseFloat\<close> for the others).
\<close>

record CandleData =
  candle_ts :: jsnum
  candle_o :: jsnum
  candle_h :: jsnum
  candle_l :: jsnum
  candle_c :: jsnum
  candle_vol :: jsnum

datatype direction = UP | DOWN | NEUTRAL

datatype action = BUY | SELL | HOLD | CLOSE | UPDATE_TPSL

text \<open>
  The texts the two analysers return are Chinese template strings; they are modelled by
  what they say. A trend description is "insufficient data", "rising (strength / EMA
  golden cross)", "falling (strength / EMA death cross)" or "averages converged".
\<close>

datatype strength = Strong | PullingBack | Rebounding

datatype trend_description =
  Desc_insufficient | Desc_rising strength | Desc_falling strength | Desc_converged

record TrendResult =
  direction :: direction
  timestamp :: jsnum
  description :: trend_description

datatype entry_reason =
  Reason_insufficient | Reason_death_then_gold | Reason_gold_then_death
  | Reason_wait_pullback | Reason_wait_rebound | Reason_trend_unclear

datatype structure_label = Structure_unknown | Structure_gold_zone | Structure_death_zone

record EntryResult =
  signal :: bool
  entry_action :: action
  sl :: jsnum
  reason :: entry_reason
  entry_structure :: structure_label

datatype pos_side = long | short | net

text \<open>
  \<open>PositionData\<close>, the fields the strategy reads. \<open>slTriggerPx\<close> is optional: \<open>None\<close>
  stands for a missing or empty string, which \<open>p.slTriggerPx || "0"\<close> replaces by zero.
\<close>

record PositionData =
  instId :: string
  posSide :: pos_side
  pos :: jsnum
  avgPx :: jsnum
  upl :: jsnum
  slTriggerPx :: "jsnum option"

record AccountBalance =
  totalEq :: jsnum

record AccountContext =
  balance :: AccountBalance
  positions :: "PositionData list"

text \<open>\<open>TickerData\<close>: \<open>None\<close> in \<open>ticker_last\<close> stands for the empty string.\<close>

record TickerData =
  ticker_last :: "jsnum option"

record MarketDataCollection =
  ticker :: "TickerData option"
  candles1H :: "CandleData list"
  candles3m :: "CandleData list"

text \<open>
  A narrative field of the decision holds the default text the code builds, the text of the
  error decision, or the text the annotator supplied.
\<close>

datatype narrative = DefaultText | ErrorText | AIText string

record TradingDecisionBlock =
  td_action :: action
  confidence :: string
  position_size :: string
  td_leverage :: jsnum
  profit_target :: string
  stop_loss :: "jsnum option"
  invalidation_condition :: narrative

text \<open>
  \<open>AIDecision\<close>. \<open>size\<close>, \<open>leverage\<close> and \<open>stop_loss\<close> are numeric strings, held as
  the number they denote; the empty \<open>stop_loss\<close> is \<open>None\<close>.
\<close>

record AIDecision =
  stage_analysis :: narrative
  market_assessment :: narrative
  hot_events_overview :: narrative
  eth_analysis :: narrative
  trading_decision :: TradingDecisionBlock
  reasoning :: narrative
  action :: action
  size :: jsnum
  leverage :: jsnum

definition INSTRUMENT_ID :: string where
  "INSTRUMENT_ID = ''ETH-USDT-SWAP''"

definition CONTRACT_VAL_ETH :: jsnum where
  "CONTRACT_VAL_ETH = Fin (1 / 10)"

section \<open>Trend on the one-hour candles\<close>

definition analyze1HTrend :: "CandleData list \<Rightarrow> TrendResult" where
  "analyze1HTrend candles =
     (if length candles < 100
      then \<lparr>direction = NEUTRAL, timestamp = Fin 0, description = Desc_insufficient\<rparr>
      else
        (let closes = map candle_c candles;
             opens = map candle_o candles;
             timestamps = map candle_ts candles;
             ema15 = calcEMAArray closes (Fin 15);
             ema60 = calcEMAArray closes (Fin 60);
             i = length closes - 1;
             isGold = jgt (ema15 ! i) (ema60 ! i);
             isDeath = jlt (ema15 ! i) (ema60 ! i);
             isYang = jgt (closes ! i) (opens ! i);
             isYin = jlt (closes ! i) (opens ! i)
         in if isGold
            then \<lparr>direction = UP, timestamp = timestamps ! i,
                  description = Desc_rising (if isYang then Strong else PullingBack)\<rparr>
            else if isDeath
            then \<lparr>direction = DOWN, timestamp = timestamps ! i,
                  description = Desc_falling (if isYin then Strong else Rebounding)\<rparr>
            else \<lparr>direction = NEUTRAL, timestamp = timestamps ! i,
                  description = Desc_converged\<rparr>))"

section \<open>Entry on the three-minute candles\<close>

text \<open>
  The backward scan \<open>for (let x = i - 1; x >= 0; x--)\<close> of the long branch. The counter
  \<open>n\<close> is \<open>x + 1\<close>, so \<open>n = 0\<close> is the end of the series; the result is the pair
  \<open>(foundDeathZone, lowestInDeathZone)\<close> when the loop is left.
\<close>

fun scanDeathZone ::
  "jsnum list \<Rightarrow> jsnum list \<Rightarrow> jsnum list \<Rightarrow> nat \<Rightarrow> bool \<Rightarrow> jsnum \<Rightarrow> bool \<times> jsnum" where
  "scanDeathZone ema15 ema60 lows 0 foundDeathZone lowestInDeathZone =
     (foundDeathZone, lowestInDeathZone)"
| "scanDeathZone ema15 ema60 lows (Suc x) foundDeathZone lowestInDeathZone =
     (if jlt (ema15 ! x) (ema60 ! x)
      then scanDeathZone ema15 ema60 lows x True
             (if jlt (lows ! x) lowestInDeathZone then lows ! x else lowestInDeathZone)
      else if foundDeathZone then (foundDeathZone, lowestInDeathZone)
      else scanDeathZone ema15 ema60 lows x foundDeathZone lowestInDeathZone)"

text \<open>The same scan of the short branch, for \<open>(foundGoldZone, highestInGoldZone)\<close>.\<close>

fun scanGoldZone ::
  "jsnum list \<Rightarrow> jsnum list \<Rightarrow> jsnum list \<Rightarrow> nat \<Rightarrow> bool \<Rightarrow> jsnum \<Rightarrow> bool \<times> jsnum" where
  "scanGoldZone ema15 ema60 highs 0 foundGoldZone highestInGoldZone =
     (foundGoldZone, highestInGoldZone)"
| "scanGoldZone ema15 ema60 highs (Suc x) foundGoldZone highestInGoldZone =
     (if jgt (ema15 ! x) (ema60 ! x)
      then scanGoldZone ema15 ema60 highs x True
             (if jgt (highs ! x) highestInGoldZone then highs ! x else highestInGoldZone)
      else if foundGoldZone then (foundGoldZone, highestInGoldZone)
      else scanGoldZone ema15 ema60 highs x foundGoldZone highestInGoldZone)"

text \<open>
  The block \<open>if (trendDirection === 'UP') { ... }\<close>: \<open>Some\<close> is its early return,
  \<open>None\<close> is falling through to the code below it.
\<close>

definition longEntry ::
  "direction \<Rightarrow> jsnum list \<Rightarrow> jsnum list \<Rightarrow> jsnum list \<Rightarrow> nat \<Rightarrow> structure_label
   \<Rightarrow> EntryResult option" where
  "longEntry trendDirection ema15 ema60 lows i structure' =
     (if trendDirection = UP
      then (let justCrossedUp =
                  (jgt (ema15 ! i) (ema60 ! i) \<and> jle (ema15 ! (i - 1)) (ema60 ! (i - 1)))
            in if justCrossedUp
               then (case scanDeathZone ema15 ema60 lows i False (lows ! i) of
                       (foundDeathZone, lowestInDeathZone) \<Rightarrow>
                         if foundDeathZone
                         then Some \<lparr>signal = True, entry_action = BUY, sl = lowestInDeathZone,
                                    reason = Reason_death_then_gold, entry_structure = structure'\<rparr>
                         else None)
               else None)
      else None)"

text \<open>The block \<open>if (trendDirection === 'DOWN') { ... }\<close>.\<close>

definition shortEntry ::
  "direction \<Rightarrow> jsnum list \<Rightarrow> jsnum list \<Rightarrow> jsnum list \<Rightarrow> nat \<Rightarrow> structure_label
   \<Rightarrow> EntryResult option" where
  "shortEntry trendDirection ema15 ema60 highs i structure' =
     (if trendDirection = DOWN
      then (let justCrossedDown =
                  (jlt (ema15 ! i) (ema60 ! i) \<and> jge (ema15 ! (i - 1)) (ema60 ! (i - 1)))
            in if justCrossedDown
               then (case scanGoldZone ema15 ema60 highs i False (highs ! i) of
                       (foundGoldZone, highestInGoldZone) \<Rightarrow>
                         if foundGoldZone
                         then Some \<lparr>signal = True, entry_action = SELL, sl = highestInGoldZone,
                                    reason = Reason_gold_then_death, entry_structure = structure'\<rparr>
                         else None)
               else None)
      else None)"

definition analyze3mEntry :: "CandleData list \<Rightarrow> direction \<Rightarrow> EntryResult" where
  "analyze3mEntry candles trendDirection =
     (if length candles < 100
      then \<lparr>signal = False, entry_action = HOLD, sl = Fin 0, reason = Reason_insufficient,
            entry_structure = Structure_unknown\<rparr>
      else
        (let closes = map candle_c candles;
             highs = map candle_h candles;
             lows = map candle_l candles;
             ema15 = calcEMAArray closes (Fin 15);
             ema60 = calcEMAArray closes (Fin 60);
             i = length closes - 1;
             currentGold = jgt (ema15 ! i) (ema60 ! i);
             structure' = (if currentGold then Structure_gold_zone else Structure_death_zone)
         in case longEntry trendDirection ema15 ema60 lows i structure' of
              Some r \<Rightarrow> r
            | None \<Rightarrow>
               (case shortEntry trendDirection ema15 ema60 highs i structure' of
                  Some r \<Rightarrow> r
                | None \<Rightarrow>
                   if trendDirection = UP
                   then \<lparr>signal = False, entry_action = HOLD, sl = Fin 0,
                         reason = Reason_wait_pullback, entry_structure = structure'\<rparr>
                   else if trendDirection = DOWN
                   then \<lparr>signal = False, entry_action = HOLD, sl = Fin 0,
                         reason = Reason_wait_rebound, entry_structure = structure'\<rparr>
                   else \<lparr>signal = False, entry_action = HOLD, sl = Fin 0,
                         reason = Reason_trend_unclear, entry_structure = structure'\<rparr>)))"

section \<open>The decision function\<close>

text \<open>
  The deterministic part of \<open>getTradingDecision\<close> leaves its result in the local
  variables \<open>finalAction\<close>, \<open>finalSize\<close> and \<open>finalSL\<close> (the empty \<open>finalSL\<close> is
  \<open>None\<close>). \<open>invalidationReason\<close> and \<open>posAnalysis\<close> are written but never read by
  anything that reaches the result, and are left out.
\<close>

record strategy_vars =
  finalAction :: action
  finalSize :: string
  finalSL :: "jsnum option"

text \<open>\<open>xs.slice(-5)\<close>: the last five elements, or all of them when there are fewer.\<close>

definition slice_last5 :: "'a list \<Rightarrow> 'a list" where
  "slice_last5 xs = drop (length xs - 5) xs"

definition FEE_BUFFER :: jsnum where
  "FEE_BUFFER = Fin (12 / 10000)"

text \<open>
  The candidate stop \<open>targetSL\<close> of the trailing block, for a long position and for any
  other side.
\<close>

definition targetSL_long :: "PositionData \<Rightarrow> jsnum \<Rightarrow> CandleData list \<Rightarrow> jsnum" where
  "targetSL_long p currentPrice recent3m =
     (let entryPx = avgPx p;
          breakEvenPrice = jmul entryPx (jadd (Fin 1) FEE_BUFFER);
          lowestRecent = Math_min_list (map candle_l recent3m);
          targetSL = jmul lowestRecent (Fin (9995 / 10000))
      in if jgt currentPrice breakEvenPrice then Math_max targetSL breakEvenPrice
         else targetSL)"

definition targetSL_short :: "PositionData \<Rightarrow> jsnum \<Rightarrow> CandleData list \<Rightarrow> jsnum" where
  "targetSL_short p currentPrice recent3m =
     (let entryPx = avgPx p;
          breakEvenPrice = jmul entryPx (jsub (Fin 1) FEE_BUFFER);
          highestRecent = Math_max_list (map candle_h recent3m);
          targetSL = jmul highestRecent (Fin (10005 / 10000))
      in if jlt currentPrice breakEvenPrice then Math_min targetSL breakEvenPrice
         else targetSL)"

text \<open>
  The trailing block up to its two final \<open>if (shouldUpdate ...)\<close> statements; the result
  is \<open>(shouldUpdate, newSL)\<close>.
\<close>

definition trailingSL :: "PositionData \<Rightarrow> bool \<Rightarrow> jsnum \<Rightarrow> CandleData list \<Rightarrow> bool \<times> jsnum" where
  "trailingSL p isLong currentPrice candles3m' =
     (let recent3m = slice_last5 candles3m';
          newSL = (case slTriggerPx p of None \<Rightarrow> Fin 0 | Some v \<Rightarrow> v)
      in if isLong
         then (let targetSL = targetSL_long p currentPrice recent3m
               in if jgt targetSL newSL \<and> jlt targetSL currentPrice then (True, targetSL)
                  else (False, newSL))
         else (let targetSL = targetSL_short p currentPrice recent3m
               in if (jeq newSL (Fin 0) \<or> jlt targetSL newSL) \<and> jgt targetSL currentPrice
                  then (True, targetSL)
                  else (False, newSL)))"

text \<open>The branch \<open>if (hasPosition) { ... }\<close>.\<close>

definition positionBranch ::
  "PositionData \<Rightarrow> jsnum \<Rightarrow> jsnum \<Rightarrow> direction \<Rightarrow> CandleData list \<Rightarrow> strategy_vars" where
  "positionBranch p totalEquity currentPrice trendDirection candles3m' =
     (let isLong = (posSide p = long);
          reversal = (if trendDirection = UP \<and> \<not> isLong then CLOSE
                      else if trendDirection = DOWN \<and> isLong then CLOSE
                      else HOLD);
          rolling = (if reversal = HOLD
                     then (let profitThreshold = jmul totalEquity (Fin (5 / 100))
                           in if jge (upl p) profitThreshold
                              then \<lparr>finalAction = (if isLong then BUY else SELL),
                                    finalSize = ''5%'', finalSL = None\<rparr>
                              else \<lparr>finalAction = reversal, finalSize = ''0'', finalSL = None\<rparr>)
                     else \<lparr>finalAction = reversal, finalSize = ''0'', finalSL = None\<rparr>)
      in if finalAction rolling = HOLD \<or> finalAction rolling = BUY \<or> finalAction rolling = SELL
         then (case trailingSL p isLong currentPrice candles3m' of
                 (shouldUpdate, newSL) \<Rightarrow>
                   (let updated = (if shouldUpdate \<and> finalAction rolling = HOLD
                                   then rolling\<lparr>finalAction := UPDATE_TPSL,
                                                finalSL := Some (toFixed2 newSL)\<rparr>
                                   else rolling)
                    in if shouldUpdate \<and> (finalAction updated = BUY \<or> finalAction updated = SELL)
                       then updated\<lparr>finalSL := Some (toFixed2 newSL)\<rparr>
                       else updated))
         else rolling)"

definition currentPrice_of :: "MarketDataCollection \<Rightarrow> jsnum" where
  "currentPrice_of marketData =
     (case ticker marketData of
        None \<Rightarrow> Fin 0
      | Some t \<Rightarrow> (case ticker_last t of None \<Rightarrow> Fin 0 | Some v \<Rightarrow> v))"

text \<open>
  Data preparation and decision logic of \<open>getTradingDecision\<close>, up to the news fetch:
  the values of \<open>finalAction\<close>, \<open>finalSize\<close> and \<open>finalSL\<close> before the annotator is
  called.
\<close>

definition decisionLogic :: "MarketDataCollection \<Rightarrow> AccountContext \<Rightarrow> strategy_vars" where
  "decisionLogic marketData accountData =
     (let currentPrice = currentPrice_of marketData;
          totalEquity = totalEq (balance accountData);
          trend1H = analyze1HTrend (candles1H marketData);
          entry3m = analyze3mEntry (candles3m marketData) (direction trend1H);
          primaryPosition = find (\<lambda>p. instId p = INSTRUMENT_ID) (positions accountData)
      in case primaryPosition of
           Some p \<Rightarrow>
             if jgt (pos p) (Fin 0)
             then positionBranch p totalEquity currentPrice (direction trend1H)
                    (candles3m marketData)
             else if signal entry3m
             then \<lparr>finalAction = entry_action entry3m, finalSize = ''5%'',
                   finalSL = Some (toFixed2 (sl entry3m))\<rparr>
             else \<lparr>finalAction = HOLD, finalSize = ''0'', finalSL = None\<rparr>
         | None \<Rightarrow>
             if signal entry3m
             then \<lparr>finalAction = entry_action entry3m, finalSize = ''5%'',
                   finalSL = Some (toFixed2 (sl entry3m))\<rparr>
             else \<lparr>finalAction = HOLD, finalSize = ''0'', finalSL = None\<rparr>)"

subsection \<open>The annotator call\<close>

text \<open>
  What the request to the DeepSeek service comes back with.
  \<^item> \<open>Unreachable\<close>: \<open>fetch\<close> rejects, there is no response.
  \<^item> \<open>NotOk status\<close>: the response is not 2xx.
  \<^item> \<open>UnreadableBody\<close>: the response is 2xx but evaluating
    \<open>json.choices[0].message.content\<close> throws: the body is not JSON, or it has no
    \<open>choices\<close>, no \<open>choices[0]\<close> or no \<open>message\<close>.
  \<^item> \<open>Content c\<close>: the expression is evaluated and its value is returned by
    \<open>callDeepSeek\<close> without a check.

  The value returned is one of three kinds. \<open>NoContent\<close>: the message has no
  \<open>content\<close> or a \<open>null\<close> one, so \<open>callDeepSeek\<close> returns \<open>undefined\<close> or
  \<open>null\<close>, and \<open>text.replace\<close> throws inside the inner \<open>try\<close> block of
  \<open>getTradingDecision\<close>. \<open>NotJson\<close>: the content is a string that \<open>JSON.parse\<close>
  rejects or parses to \<open>null\<close>, or it is not a string; the inner \<open>try\<close> block
  throws as well. \<open>Json\<close>: the content parses to a value whose properties are read; a
  property that is missing or falsy is \<open>None\<close>.
\<close>

record ai_json =
  ai_stage_analysis :: "string option"
  ai_market_assessment :: "string option"
  ai_hot_events_overview :: "string option"
  ai_eth_analysis :: "string option"
  ai_reasoning :: "string option"
  ai_invalidation_condition :: "string option"

datatype ai_content = NoContent | NotJson | Json ai_json

datatype deepseek_response = Unreachable | NotOk nat | UnreadableBody | Content ai_content

datatype js_error = Error_enter_key | Error_key_empty | Error_key_not_ascii | Error_request

text \<open>
  Strings are sequences of code units below 256. \<open>trim\<close> removes white space and line
  terminators from both ends.
\<close>

definition is_white_space :: "char \<Rightarrow> bool" where
  "is_white_space ch = (of_char ch \<in> {9, 10, 11, 12, 13, 32, 160 :: nat})"

definition trim :: "string \<Rightarrow> string" where
  "trim s = rev (dropWhile is_white_space (rev (dropWhile is_white_space s)))"

definition callDeepSeek :: "string \<Rightarrow> deepseek_response \<Rightarrow> js_error + ai_content" where
  "callDeepSeek apiKey response =
     (let cleanKey = (if apiKey \<noteq> [] then trim apiKey else [])
      in if cleanKey = [] then Inl Error_key_empty
         else if list_ex (\<lambda>ch. 127 < (of_char ch :: nat)) cleanKey then Inl Error_key_not_ascii
         else (case response of
                 Unreachable \<Rightarrow> Inl Error_request
               | NotOk status \<Rightarrow> Inl Error_request
               | UnreadableBody \<Rightarrow> Inl Error_request
               | Content text \<Rightarrow> Inr text))"

text \<open>The decision built before the annotator's text is read.\<close>

definition defaultDecision :: "jsnum \<Rightarrow> strategy_vars \<Rightarrow> AIDecision" where
  "defaultDecision DEFAULT_LEVERAGE v =
     \<lparr>stage_analysis = DefaultText,
      market_assessment = DefaultText,
      hot_events_overview = DefaultText,
      eth_analysis = DefaultText,
      trading_decision =
        \<lparr>td_action = finalAction v, confidence = ''100%'', position_size = finalSize v,
         td_leverage = DEFAULT_LEVERAGE, profit_target = [], stop_loss = finalSL v,
         invalidation_condition = DefaultText\<rparr>,
      reasoning = DefaultText,
      action = finalAction v,
      size = Fin 0,
      leverage = DEFAULT_LEVERAGE\<rparr>"

text \<open>The decision returned by the outer \<open>catch\<close>.\<close>

definition errorDecision :: AIDecision where
  "errorDecision =
     \<lparr>stage_analysis = ErrorText,
      market_assessment = ErrorText,
      hot_events_overview = ErrorText,
      eth_analysis = ErrorText,
      trading_decision =
        \<lparr>td_action = HOLD, confidence = ''0%'', position_size = ''0'',
         td_leverage = Fin 0, profit_target = [], stop_loss = None,
         invalidation_condition = ErrorText\<rparr>,
      reasoning = ErrorText,
      action = HOLD,
      size = Fin 0,
      leverage = Fin 0\<rparr>"

definition override :: "string option \<Rightarrow> narrative \<Rightarrow> narrative" where
  "override field old = (case field of None \<Rightarrow> old | Some s \<Rightarrow> AIText s)"

text \<open>
  The inner \<open>try\<close> block: the annotator's fields replace the default texts; when the
  block throws, its \<open>catch\<close> leaves the decision as it was.
\<close>

definition applyAnnotation :: "ai_content \<Rightarrow> AIDecision \<Rightarrow> AIDecision" where
  "applyAnnotation text decision =
     (case text of
        NoContent \<Rightarrow> decision
      | NotJson \<Rightarrow> decision
      | Json aiJson \<Rightarrow>
          decision
            \<lparr>stage_analysis := override (ai_stage_analysis aiJson) (stage_analysis decision),
             market_assessment :=
               override (ai_market_assessment aiJson) (market_assessment decision),
             hot_events_overview :=
               override (ai_hot_events_overview aiJson) (hot_events_overview decision),
             eth_analysis := override (ai_eth_analysis aiJson) (eth_analysis decision),
             reasoning := override (ai_reasoning aiJson) (reasoning decision),
             trading_decision :=
               (trading_decision decision)
                 \<lparr>invalidation_condition :=
                    override (ai_invalidation_condition aiJson)
                      (invalidation_condition (trading_decision decision))\<rparr>\<rparr>)"

text \<open>The contract count of the block \<open>Calc precise size for "5%"\<close>.\<close>

definition contracts_of :: "jsnum \<Rightarrow> jsnum \<Rightarrow> jsnum \<Rightarrow> jsnum" where
  "contracts_of DEFAULT_LEVERAGE totalEquity currentPrice =
     (let amountU = jmul totalEquity (Fin (5 / 100));
          leverage' = DEFAULT_LEVERAGE;
          positionValue = jmul amountU leverage'
      in jdiv positionValue (jmul CONTRACT_VAL_ETH currentPrice))"

text \<open>
  \<open>getTradingDecision\<close>. The constant \<open>DEFAULT_LEVERAGE\<close> is imported from the constants
  module, which does not define it; it is a parameter here, the number its string
  denotes. The response of the annotator service is a parameter as well. \<open>Inl\<close> is a
  rejected promise. The news fetch catches every error itself and its text only enters the
  request to the annotator.
\<close>

definition getTradingDecision ::
  "jsnum \<Rightarrow> string \<Rightarrow> MarketDataCollection \<Rightarrow> AccountContext \<Rightarrow> deepseek_response
   \<Rightarrow> js_error + AIDecision" where
  "getTradingDecision DEFAULT_LEVERAGE apiKey marketData accountData response =
     (if apiKey = [] then Inl Error_enter_key
      else
        (let currentPrice = currentPrice_of marketData;
             totalEquity = totalEq (balance accountData);
             v = decisionLogic marketData accountData
         in case callDeepSeek apiKey response of
              Inl e \<Rightarrow> Inr errorDecision
            | Inr text \<Rightarrow>
                (let decision = applyAnnotation text (defaultDecision DEFAULT_LEVERAGE v)
                 in if finalAction v = BUY \<or> finalAction v = SELL
                    then Inr (decision
                           \<lparr>size := toFixed2 (Math_max
                              (contracts_of DEFAULT_LEVERAGE totalEquity currentPrice)
                              (Fin (1 / 100)))\<rparr>)
                    else Inr decision)))"

section \<open>Auxiliary definitions\<close>

text \<open>
  The EMA recurrence as a recursion over the prices that remain, \<open>prev\<close> being the last
  value pushed. It is used to evaluate \<open>calcEMAArray\<close> on long concrete series.
\<close>

fun ema_from :: "jsnum \<Rightarrow> jsnum \<Rightarrow> jsnum list \<Rightarrow> jsnum list" where
  "ema_from k prev [] = []"
| "ema_from k prev (p # ps) =
     (let v = jadd (jmul p k) (jmul prev (jsub (Fin 1) k)) in v # ema_from k v ps)"

text \<open>Concrete candles and series for the worked examples.\<close>

definition flat_candle :: CandleData where
  "flat_candle = \<lparr>candle_ts = Fin 1000, candle_o = Fin 100, candle_h = Fin 101,
                  candle_l = Fin 99, candle_c = Fin 100, candle_vol = Fin 1\<rparr>"

definition candle_at :: "rat \<Rightarrow> rat \<Rightarrow> rat \<Rightarrow> rat \<Rightarrow> CandleData" where
  "candle_at op hi lo cl = \<lparr>candle_ts = Fin 2000, candle_o = Fin op, candle_h = Fin hi,
                            candle_l = Fin lo, candle_c = Fin cl, candle_vol = Fin 1\<rparr>"

text \<open>One hundred candles: ninety-nine flat ones, then a close at 110, or at 90.\<close>

definition rising_series :: "CandleData list" where
  "rising_series = flat_candle # replicate 98 flat_candle @ [candle_at 100 111 99 110]"

definition falling_series :: "CandleData list" where
  "falling_series = flat_candle # replicate 98 flat_candle @ [candle_at 100 101 89 90]"

text \<open>A position in the traded instrument, an account holding it, and market data.\<close>

definition eth_position :: "pos_side \<Rightarrow> rat \<Rightarrow> jsnum option \<Rightarrow> PositionData" where
  "eth_position side profit stop =
     \<lparr>instId = ''ETH-USDT-SWAP'', posSide = side, pos = Fin 1, avgPx = Fin 3000,
      upl = Fin profit, slTriggerPx = stop\<rparr>"

definition account_with :: "PositionData list \<Rightarrow> AccountContext" where
  "account_with ps = \<lparr>balance = \<lparr>totalEq = Fin 1000\<rparr>, positions = ps\<rparr>"

definition recent_candles :: "CandleData list" where
  "recent_candles = map (\<lambda>lo. candle_at 3000 3020 lo 3010) [2990, 2995, 3005, 3010, 3012]"

definition market_with ::
  "TickerData option \<Rightarrow> CandleData list \<Rightarrow> CandleData list \<Rightarrow> MarketDataCollection" where
  "market_with t hourly minutes = \<lparr>ticker = t, candles1H = hourly, candles3m = minutes\<rparr>"

definition ticker_at :: "rat \<Rightarrow> TickerData option" where
  "ticker_at price = Some \<lparr>ticker_last = Some (Fin price)\<rparr>"

text \<open>
  The two backward scans of \<open>analyze3mEntry\<close> have one shape: \<open>inZone x\<close> says
  whether candle \<open>x\<close> belongs to the zone looked for, \<open>better\<close> compares a candle's
  value with the extreme kept so far.
\<close>

definition keep_better :: "(jsnum \<Rightarrow> jsnum \<Rightarrow> bool) \<Rightarrow> jsnum \<Rightarrow> jsnum \<Rightarrow> jsnum" where
  "keep_better better best v = (if better v best then v else best)"

fun scanZone ::
  "(nat \<Rightarrow> bool) \<Rightarrow> (jsnum \<Rightarrow> jsnum \<Rightarrow> bool) \<Rightarrow> jsnum list \<Rightarrow> nat \<Rightarrow> bool \<Rightarrow> jsnum
   \<Rightarrow> bool \<times> jsnum" where
  "scanZone inZone better vals 0 found best = (found, best)"
| "scanZone inZone better vals (Suc x) found best =
     (if inZone x then scanZone inZone better vals x True (keep_better better best (vals ! x))
      else if found then (found, best)
      else scanZone inZone better vals x found best)"

text \<open>
  One hundred three-minute candles: ninety-eight flat ones, then a dip and a jump (a death
  candle followed by a golden cross), or a spike and a drop.
\<close>

definition dip_then_jump :: "CandleData list" where
  "dip_then_jump =
     flat_candle # replicate 97 flat_candle @ [candle_at 100 101 89 90, candle_at 90 201 90 200]"

definition spike_then_drop :: "CandleData list" where
  "spike_then_drop =
     flat_candle # replicate 97 flat_candle @ [candle_at 100 111 99 110, candle_at 110 110 9 10]"

text \<open>The same position with a given average entry price.\<close>

definition eth_position_at ::
  "rat \<Rightarrow> pos_side \<Rightarrow> rat \<Rightarrow> jsnum option \<Rightarrow> PositionData" where
  "eth_position_at entry side profit stop =
     \<lparr>instId = ''ETH-USDT-SWAP'', posSide = side, pos = Fin 1, avgPx = Fin entry,
      upl = Fin profit, slTriggerPx = stop\<rparr>"

text \<open>
  An old candle with a far low and a far high, and two runs of five later candles: one with
  lows above the break-even of a long entry at 3000, one with highs below the break-even of
  a short entry at 3000.
\<close>

definition old_candle :: CandleData where
  "old_candle = candle_at 3000 5000 2000 3000"

definition late_lows :: "CandleData list" where
  "late_lows = map (\<lambda>lo. candle_at 3020 3030 lo 3025) [3010, 3012, 3008, 3015, 3011]"

definition late_highs :: "CandleData list" where
  "late_highs = map (\<lambda>hi. candle_at 2950 hi 2940 2945) [2955, 2960, 2950, 2958, 2957]"

section \<open>Properties of the EMA series\<close>

declare calcEMAArray_loop.simps [simp del]

lemma calcEMAArray_loop_length:
  "length emaArray = i \<Longrightarrow> i \<le> length prices \<Longrightarrow>
   length (calcEMAArray_loop prices k i emaArray) = length prices"
proof (induction prices k i emaArray rule: calcEMAArray_loop.induct)
  case (1 prices k i emaArray)
  show ?case
  proof (cases "i < length prices")
    case True
    then show ?thesis
      using "1.IH" "1.prems" by (subst calcEMAArray_loop.simps) (simp add: Let_def)
  next
    case False
    then show ?thesis
      using "1.prems" by (subst calcEMAArray_loop.simps) simp
  qed
qed

lemma calcEMAArray_loop_prefix:
  "length emaArray = i \<Longrightarrow> j < i \<Longrightarrow>
   calcEMAArray_loop prices k i emaArray ! j = emaArray ! j"
proof (induction prices k i emaArray rule: calcEMAArray_loop.induct)
  case (1 prices k i emaArray)
  show ?case
  proof (cases "i < length prices")
    case True
    then show ?thesis
      using "1.IH" "1.prems"
      by (subst calcEMAArray_loop.simps) (simp add: Let_def nth_append)
  next
    case False
    then show ?thesis
      by (subst calcEMAArray_loop.simps) simp
  qed
qed

lemma calcEMAArray_loop_step:
  "length emaArray = i \<Longrightarrow> 1 \<le> i \<Longrightarrow> i \<le> j \<Longrightarrow> j < length prices \<Longrightarrow>
   calcEMAArray_loop prices k i emaArray ! j =
     jadd (jmul (prices ! j) k)
          (jmul (calcEMAArray_loop prices k i emaArray ! (j - 1)) (jsub (Fin 1) k))"
proof (induction prices k i emaArray rule: calcEMAArray_loop.induct)
  case (1 prices k i emaArray)
  from "1.prems" have lt: "i < length prices" by simp
  define val where "val = jadd (jmul (prices ! i) k) (jmul (emaArray ! (i - 1)) (jsub (Fin 1) k))"
  have unfold: "calcEMAArray_loop prices k i emaArray =
                calcEMAArray_loop prices k (i + 1) (emaArray @ [val])"
    using lt "1.prems" by (subst calcEMAArray_loop.simps) (simp add: Let_def val_def)
  have len: "length (emaArray @ [val]) = i + 1"
    using "1.prems" by simp
  show ?case
  proof (cases "j = i")
    case True
    have a: "calcEMAArray_loop prices k (i + 1) (emaArray @ [val]) ! i = val"
      using calcEMAArray_loop_prefix [OF len, of i prices k] "1.prems" by (simp add: nth_append)
    have b: "calcEMAArray_loop prices k (i + 1) (emaArray @ [val]) ! (i - 1) = emaArray ! (i - 1)"
      using calcEMAArray_loop_prefix [OF len, of "i - 1" prices k] "1.prems"
      by (simp add: nth_append)
    show ?thesis
      unfolding unfold True a b by (simp add: val_def)
  next
    case False
    with "1.prems" have "i + 1 \<le> j" by simp
    then have "calcEMAArray_loop prices k (i + 1) (emaArray @ [val]) ! j =
      jadd (jmul (prices ! j) k)
           (jmul (calcEMAArray_loop prices k (i + 1) (emaArray @ [val]) ! (j - 1)) (jsub (Fin 1) k))"
      using "1.IH" [OF lt _ len] "1.prems" lt by (simp add: val_def)
    then show ?thesis
      unfolding unfold .
  qed
qed

lemma length_calcEMAArray [simp]: "length (calcEMAArray prices period) = length prices"
  by (simp add: calcEMAArray_def Let_def calcEMAArray_loop_length Suc_leI)

text \<open>
  Claim C8. For every price sequence and every period the EMA series has the length of its
  input (the empty series for the empty input), its element 0 is the first price, and its
  element \<open>i\<close>, for \<open>i \<ge> 1\<close>, is \<open>prices[i]*k + output[i-1]*(1-k)\<close> with
  \<open>k = 2/(period+1)\<close>.
\<close>

theorem calcEMAArray_series:
  "length (calcEMAArray prices period) = length prices
   \<and> calcEMAArray [] period = []
   \<and> (prices \<noteq> [] \<longrightarrow> calcEMAArray prices period ! 0 = prices ! 0)
   \<and> (\<forall>i. 1 \<le> i \<and> i < length prices \<longrightarrow>
         calcEMAArray prices period ! i =
           jadd (jmul (prices ! i) (jdiv (Fin 2) (jadd period (Fin 1))))
                (jmul (calcEMAArray prices period ! (i - 1))
                      (jsub (Fin 1) (jdiv (Fin 2) (jadd period (Fin 1))))))"
proof (intro conjI allI impI)
  show "length (calcEMAArray prices period) = length prices" by simp
  show "calcEMAArray [] period = []" by (simp add: calcEMAArray_def)
  show "calcEMAArray prices period ! 0 = prices ! 0" if "prices \<noteq> []"
    using that calcEMAArray_loop_prefix [of "[prices ! 0]" 1 0 prices]
    by (simp add: calcEMAArray_def Let_def)
  show "calcEMAArray prices period ! i =
           jadd (jmul (prices ! i) (jdiv (Fin 2) (jadd period (Fin 1))))
                (jmul (calcEMAArray prices period ! (i - 1))
                      (jsub (Fin 1) (jdiv (Fin 2) (jadd period (Fin 1)))))"
    if "1 \<le> i \<and> i < length prices" for i
    using that calcEMAArray_loop_step [of "[prices ! 0]" 1 i prices]
    by (auto simp add: calcEMAArray_def Let_def)
qed

theorem calcEMAArray_series_witness:
  "[Fin 10, Fin 20, Fin 30] \<noteq> []
   \<and> (1 :: nat) \<le> 2 \<and> 2 < length [Fin 10, Fin 20, Fin 30]
   \<and> length (calcEMAArray [Fin 10, Fin 20, Fin 30] (Fin 3)) = 3
   \<and> calcEMAArray [Fin 10, Fin 20, Fin 30] (Fin 3) ! 0 = Fin 10
   \<and> calcEMAArray [Fin 10, Fin 20, Fin 30] (Fin 3) ! 2 =
       jadd (jmul (Fin 30) (Fin (1 / 2)))
            (jmul (calcEMAArray [Fin 10, Fin 20, Fin 30] (Fin 3) ! 1) (Fin (1 / 2)))
   \<and> calcEMAArray [Fin 10, Fin 20, Fin 30] (Fin 3) = [Fin 10, Fin 15, Fin (45 / 2)]"
proof -
  have ev: "calcEMAArray [Fin 10, Fin 20, Fin 30] (Fin 3) = [Fin 10, Fin 15, Fin (45 / 2)]"
    by (simp add: calcEMAArray_def calcEMAArray_loop.simps jsub_def)
  show ?thesis
    using calcEMAArray_series [of "[Fin 10, Fin 20, Fin 30]" "Fin 3"]
    by (simp add: ev jsub_def)
qed

section \<open>Facts about comparisons\<close>

lemma jlt_irrefl [simp]: "\<not> jlt a a"
  by (cases a) simp_all

lemma jlt_asym: "jlt a b \<Longrightarrow> \<not> jlt b a"
  by (cases a; cases b) simp_all

lemma jlt_trans: "jlt a b \<Longrightarrow> jlt b c \<Longrightarrow> jlt a c"
  by (cases a; cases b; cases c) simp_all

lemma jle_iff_not_jlt: "a \<noteq> NaN \<Longrightarrow> b \<noteq> NaN \<Longrightarrow> jle a b \<longleftrightarrow> \<not> jlt b a"
  by (cases a; cases b) auto

lemma jle_refl: "a \<noteq> NaN \<Longrightarrow> jle a a"
  by (cases a) simp_all

lemma jle_trans: "jle a b \<Longrightarrow> jle b c \<Longrightarrow> jle a c"
  by (cases a; cases b; cases c) simp_all

lemma jlt_imp_jle: "jlt a b \<Longrightarrow> jle a b"
  by (cases a; cases b) simp_all

lemma jlt_not_NaN: "jlt a b \<Longrightarrow> a \<noteq> NaN \<and> b \<noteq> NaN"
  by (cases a; cases b) simp_all

section \<open>Evaluating the EMA series\<close>

lemma calcEMAArray_loop_ema_from:
  "length emaArray = i \<Longrightarrow> 1 \<le> i \<Longrightarrow> i \<le> length prices \<Longrightarrow>
   calcEMAArray_loop prices k i emaArray = emaArray @ ema_from k (last emaArray) (drop i prices)"
proof (induction prices k i emaArray rule: calcEMAArray_loop.induct)
  case (1 prices k i emaArray)
  show ?case
  proof (cases "i < length prices")
    case True
    define val where "val = jadd (jmul (prices ! i) k) (jmul (emaArray ! (i - 1)) (jsub (Fin 1) k))"
    have ne: "emaArray \<noteq> []" using "1.prems" by auto
    have lastv: "last emaArray = emaArray ! (i - 1)"
      using "1.prems" ne by (simp add: last_conv_nth)
    have unfold: "calcEMAArray_loop prices k i emaArray =
                  calcEMAArray_loop prices k (i + 1) (emaArray @ [val])"
      using True "1.prems" by (subst calcEMAArray_loop.simps) (simp add: Let_def val_def)
    have "calcEMAArray_loop prices k (i + 1) (emaArray @ [val]) =
          (emaArray @ [val]) @ ema_from k (last (emaArray @ [val])) (drop (i + 1) prices)"
      using "1.IH" [OF True _ _ _ _] True "1.prems" by (simp add: val_def)
    moreover have "drop i prices = prices ! i # drop (i + 1) prices"
      using True by (simp add: Cons_nth_drop_Suc)
    ultimately show ?thesis
      unfolding unfold by (simp add: Let_def val_def lastv)
  next
    case False
    then show ?thesis
      using "1.prems" by (subst calcEMAArray_loop.simps) simp
  qed
qed

lemma calcEMAArray_Cons:
  "calcEMAArray (p # ps) period = p # ema_from (jdiv (Fin 2) (jadd period (Fin 1))) p ps"
  using calcEMAArray_loop_ema_from [of "[p]" 1 "p # ps"]
  by (simp add: calcEMAArray_def Let_def)

lemma ema_from_replicate:
  "ema_from (Fin k) (Fin a) (replicate n (Fin a) @ rest) =
   replicate n (Fin a) @ ema_from (Fin k) (Fin a) rest"
proof (induction n)
  case 0
  show ?case by simp
next
  case (Suc n)
  have "a * k + a * (1 - k) = a" by (simp add: algebra_simps)
  then show ?case using Suc by (simp add: Let_def jsub_def)
qed

lemma ema15_factor: "jdiv (Fin 2) (jadd (Fin 15) (Fin 1)) = Fin (1 / 8)"
  by simp

lemma ema60_factor: "jdiv (Fin 2) (jadd (Fin 60) (Fin 1)) = Fin (2 / 61)"
  by simp

section \<open>Trend classification\<close>

lemma analyze1HTrend_direction_eq:
  "direction (analyze1HTrend candles) =
     (if length candles < 100 then NEUTRAL
      else if jgt (calcEMAArray (map candle_c candles) (Fin 15) ! (length candles - 1))
                  (calcEMAArray (map candle_c candles) (Fin 60) ! (length candles - 1)) then UP
      else if jlt (calcEMAArray (map candle_c candles) (Fin 15) ! (length candles - 1))
                  (calcEMAArray (map candle_c candles) (Fin 60) ! (length candles - 1)) then DOWN
      else NEUTRAL)"
  by (simp add: analyze1HTrend_def Let_def)

text \<open>
  Claim C7. Trend classification is total. With fewer than 100 candles the result is
  NEUTRAL with the insufficient-data description. With at least 100 candles the direction
  is decided by the two EMAs at the last index alone: EMA15 above EMA60 is UP, below is
  DOWN, equal is NEUTRAL. Whether the last candle closed above or below its open only
  selects the strength word of the description: two series with the same closes have the
  same direction.
\<close>

theorem analyze1HTrend_classification:
  "(length candles < 100 \<longrightarrow>
      analyze1HTrend candles =
        \<lparr>direction = NEUTRAL, timestamp = Fin 0, description = Desc_insufficient\<rparr>)
   \<and> (100 \<le> length candles \<longrightarrow>
        (let closes = map candle_c candles;
             opens = map candle_o candles;
             i = length candles - 1;
             e15 = calcEMAArray closes (Fin 15) ! i;
             e60 = calcEMAArray closes (Fin 60) ! i;
             r = analyze1HTrend candles
         in (jgt e15 e60 \<longrightarrow>
               direction r = UP
               \<and> description r =
                   Desc_rising (if jgt (closes ! i) (opens ! i) then Strong else PullingBack))
            \<and> (jlt e15 e60 \<longrightarrow>
                 direction r = DOWN
                 \<and> description r =
                     Desc_falling (if jlt (closes ! i) (opens ! i) then Strong else Rebounding))
            \<and> (e15 = e60 \<longrightarrow> direction r = NEUTRAL \<and> description r = Desc_converged)
            \<and> timestamp r = candle_ts (candles ! i)))
   \<and> (\<forall>candles'. map candle_c candles' = map candle_c candles \<longrightarrow>
         direction (analyze1HTrend candles') = direction (analyze1HTrend candles))"
proof (intro conjI impI allI)
  show "analyze1HTrend candles =
        \<lparr>direction = NEUTRAL, timestamp = Fin 0, description = Desc_insufficient\<rparr>"
    if "length candles < 100"
    using that by (simp add: analyze1HTrend_def)
  show "let closes = map candle_c candles;
             opens = map candle_o candles;
             i = length candles - 1;
             e15 = calcEMAArray closes (Fin 15) ! i;
             e60 = calcEMAArray closes (Fin 60) ! i;
             r = analyze1HTrend candles
         in (jgt e15 e60 \<longrightarrow>
               direction r = UP
               \<and> description r =
                   Desc_rising (if jgt (closes ! i) (opens ! i) then Strong else PullingBack))
            \<and> (jlt e15 e60 \<longrightarrow>
                 direction r = DOWN
                 \<and> description r =
                     Desc_falling (if jlt (closes ! i) (opens ! i) then Strong else Rebounding))
            \<and> (e15 = e60 \<longrightarrow> direction r = NEUTRAL \<and> description r = Desc_converged)
            \<and> timestamp r = candle_ts (candles ! i)"
    if "100 \<le> length candles"
    using that by (auto simp add: analyze1HTrend_def Let_def jgt_def dest: jlt_asym)
  show "direction (analyze1HTrend candles') = direction (analyze1HTrend candles)"
    if "map candle_c candles' = map candle_c candles" for candles'
  proof -
    have "length candles' = length candles"
      using that by (rule map_eq_imp_length_eq)
    then show ?thesis
      using that by (simp add: analyze1HTrend_direction_eq)
  qed
qed

lemma rising_closes:
  "map candle_c rising_series = Fin 100 # replicate 98 (Fin 100) @ [Fin 110]"
  by (simp add: rising_series_def flat_candle_def candle_at_def)

lemma rising_series_trend:
  "analyze1HTrend rising_series =
     \<lparr>direction = UP, timestamp = Fin 2000, description = Desc_rising Strong\<rparr>"
  apply (simp add: analyze1HTrend_def Let_def rising_closes calcEMAArray_Cons ema_from_replicate jgt_def jsub_def nth_append)
  apply (simp add:  rising_series_def flat_candle_def candle_at_def nth_append)
  done

theorem analyze1HTrend_classification_witness:
  "length ([] :: CandleData list) < 100
   \<and> analyze1HTrend [] =
       \<lparr>direction = NEUTRAL, timestamp = Fin 0, description = Desc_insufficient\<rparr>
   \<and> 100 \<le> length rising_series
   \<and> jgt (calcEMAArray (map candle_c rising_series) (Fin 15) ! 99)
          (calcEMAArray (map candle_c rising_series) (Fin 60) ! 99)
   \<and> direction (analyze1HTrend rising_series) = UP
   \<and> description (analyze1HTrend rising_series) = Desc_rising Strong"
proof -
  have len: "length rising_series = 100" by (simp add: rising_series_def)
  have gold: "jgt (calcEMAArray (map candle_c rising_series) (Fin 15) ! 99)
                  (calcEMAArray (map candle_c rising_series) (Fin 60) ! 99)"
    by (simp add: rising_closes calcEMAArray_Cons ema_from_replicate jgt_def jsub_def
        nth_append Let_def)
  have "100 \<le> length rising_series" using len by simp
  with analyze1HTrend_classification [of rising_series] gold len
  have "direction (analyze1HTrend rising_series) = UP
        \<and> description (analyze1HTrend rising_series) = Desc_rising Strong"
    by (simp add: Let_def rising_closes rising_series_def flat_candle_def candle_at_def
        nth_append jgt_def)
  moreover have "analyze1HTrend [] =
       \<lparr>direction = NEUTRAL, timestamp = Fin 0, description = Desc_insufficient\<rparr>"
    using analyze1HTrend_classification [of "[]"] by simp
  ultimately show ?thesis using gold len by simp
qed

section \<open>The position branch\<close>

lemma decisionLogic_position:
  "find (\<lambda>p. instId p = INSTRUMENT_ID) (positions accountData) = Some p \<Longrightarrow>
   jgt (pos p) (Fin 0) \<Longrightarrow>
   decisionLogic marketData accountData =
     positionBranch p (totalEq (balance accountData)) (currentPrice_of marketData)
       (direction (analyze1HTrend (candles1H marketData))) (candles3m marketData)"
  by (simp add: decisionLogic_def Let_def)

lemma positionBranch_reversal:
  "(d = UP \<and> posSide p \<noteq> long) \<or> (d = DOWN \<and> posSide p = long) \<Longrightarrow>
   positionBranch p eq price d cs = \<lparr>finalAction = CLOSE, finalSize = ''0'', finalSL = None\<rparr>"
  by (auto simp add: positionBranch_def Let_def)

lemma positionBranch_no_reversal:
  assumes nr: "\<not> ((d = UP \<and> posSide p \<noteq> long) \<or> (d = DOWN \<and> posSide p = long))"
  shows "positionBranch p eq price d cs =
     \<lparr>finalAction =
        (if jge (upl p) (jmul eq (Fin (5 / 100)))
         then (if posSide p = long then BUY else SELL)
         else if fst (trailingSL p (posSide p = long) price cs) then UPDATE_TPSL else HOLD),
      finalSize = (if jge (upl p) (jmul eq (Fin (5 / 100))) then ''5%'' else ''0''),
      finalSL =
        (if fst (trailingSL p (posSide p = long) price cs)
         then Some (toFixed2 (snd (trailingSL p (posSide p = long) price cs)))
         else None)\<rparr>"
proof -
  obtain u n where t: "trailingSL p (posSide p = long) price cs = (u, n)"
    by (cases "trailingSL p (posSide p = long) price cs")
  have rev: "(if d = UP \<and> \<not> posSide p = long then CLOSE
              else if d = DOWN \<and> posSide p = long then CLOSE else HOLD) = HOLD"
    using nr by auto
  show ?thesis
    unfolding positionBranch_def Let_def rev t
    by (cases "jge (upl p) (jmul eq (Fin (5 / 100)))"; cases u; cases "posSide p = long") simp_all
qed

text \<open>
  Claim C2. With an open position, whatever the profit and whatever the trailing-stop
  conditions, a trend that opposes the position (UP against a position that is not long,
  DOWN against a long one) makes the decision logic end with the action CLOSE, with no
  size and no stop: the reversal exit comes first and nothing after it runs.
\<close>

theorem reversal_exit_wins:
  "find (\<lambda>p. instId p = INSTRUMENT_ID) (positions accountData) = Some p \<Longrightarrow>
   jgt (pos p) (Fin 0) \<Longrightarrow>
   (direction (analyze1HTrend (candles1H marketData)) = UP \<and> posSide p \<noteq> long)
   \<or> (direction (analyze1HTrend (candles1H marketData)) = DOWN \<and> posSide p = long) \<Longrightarrow>
   decisionLogic marketData accountData =
     \<lparr>finalAction = CLOSE, finalSize = ''0'', finalSL = None\<rparr>"
  by (simp only: decisionLogic_position positionBranch_reversal)

lemma falling_closes:
  "map candle_c falling_series = Fin 100 # replicate 98 (Fin 100) @ [Fin 90]"
  by (simp add: falling_series_def flat_candle_def candle_at_def)

lemma falling_series_trend: "direction (analyze1HTrend falling_series) = DOWN"
  by (simp add: analyze1HTrend_direction_eq falling_closes calcEMAArray_Cons ema_from_replicate
      jgt_def jsub_def nth_append Let_def) (simp add: falling_series_def)

lemma find_eth_position:
  "find (\<lambda>p. instId p = INSTRUMENT_ID) (positions (account_with [eth_position side profit stop]))
   = Some (eth_position side profit stop)"
  by (simp add: account_with_def eth_position_def INSTRUMENT_ID_def)

lemma pos_eth_position: "jgt (pos (eth_position side profit stop)) (Fin 0)"
  by (simp add: eth_position_def jgt_def)


theorem reversal_exit_wins_witness:
  "find (\<lambda>p. instId p = INSTRUMENT_ID) (positions (account_with [eth_position long 100 None]))
     = Some (eth_position long 100 None)
   \<and> jgt (pos (eth_position long 100 None)) (Fin 0)
   \<and> direction (analyze1HTrend (candles1H (market_with (ticker_at 3050) falling_series recent_candles))) = DOWN
   \<and> posSide (eth_position long 100 None) = long
   \<and> decisionLogic (market_with (ticker_at 3050) falling_series recent_candles)
        (account_with [eth_position long 100 None]) =
       \<lparr>finalAction = CLOSE, finalSize = ''0'', finalSL = None\<rparr>"
proof -
  have d: "direction (analyze1HTrend (candles1H (market_with (ticker_at 3050) falling_series recent_candles))) = DOWN"
    by (simp add: market_with_def falling_series_trend)
  have s: "posSide (eth_position long 100 None) = long" by (simp add: eth_position_def)
  show ?thesis
    using reversal_exit_wins [OF find_eth_position pos_eth_position, of "market_with (ticker_at 3050) falling_series recent_candles" long 100 None]
      d s find_eth_position [of long 100 None] pos_eth_position [of long 100 None]
    by simp
qed

lemma decisionLogic_no_reversal:
  assumes "find (\<lambda>p. instId p = INSTRUMENT_ID) (positions accountData) = Some p"
    and "jgt (pos p) (Fin 0)"
    and "\<not> ((direction (analyze1HTrend (candles1H marketData)) = UP \<and> posSide p \<noteq> long)
           \<or> (direction (analyze1HTrend (candles1H marketData)) = DOWN \<and> posSide p = long))"
  shows "decisionLogic marketData accountData =
     \<lparr>finalAction =
        (if jge (upl p) (jmul (totalEq (balance accountData)) (Fin (5 / 100)))
         then (if posSide p = long then BUY else SELL)
         else if fst (trailingSL p (posSide p = long) (currentPrice_of marketData)
                        (candles3m marketData))
              then UPDATE_TPSL else HOLD),
      finalSize =
        (if jge (upl p) (jmul (totalEq (balance accountData)) (Fin (5 / 100)))
         then ''5%'' else ''0''),
      finalSL =
        (if fst (trailingSL p (posSide p = long) (currentPrice_of marketData)
                   (candles3m marketData))
         then Some (toFixed2 (snd (trailingSL p (posSide p = long) (currentPrice_of marketData)
                                     (candles3m marketData))))
         else None)\<rparr>"
  unfolding decisionLogic_position [OF assms(1,2)]
  by (rule positionBranch_no_reversal [OF assms(3)])

lemma trailingSL_long:
  "trailingSL p True price cs =
     (if jgt (targetSL_long p price (slice_last5 cs))
             (case slTriggerPx p of None \<Rightarrow> Fin 0 | Some s \<Rightarrow> s)
         \<and> jlt (targetSL_long p price (slice_last5 cs)) price
      then (True, targetSL_long p price (slice_last5 cs))
      else (False, case slTriggerPx p of None \<Rightarrow> Fin 0 | Some s \<Rightarrow> s))"
  by (simp add: trailingSL_def Let_def)

lemma trailingSL_short:
  "trailingSL p False price cs =
     (if ((case slTriggerPx p of None \<Rightarrow> Fin 0 | Some s \<Rightarrow> s) = Fin 0
          \<or> jlt (targetSL_short p price (slice_last5 cs))
                 (case slTriggerPx p of None \<Rightarrow> Fin 0 | Some s \<Rightarrow> s))
         \<and> jgt (targetSL_short p price (slice_last5 cs)) price
      then (True, targetSL_short p price (slice_last5 cs))
      else (False, case slTriggerPx p of None \<Rightarrow> Fin 0 | Some s \<Rightarrow> s))"
  by (auto simp add: trailingSL_def Let_def jeq_def)


lemma eth_position_fields [simp]:
  "posSide (eth_position side profit stop) = side"
  "upl (eth_position side profit stop) = Fin profit"
  "avgPx (eth_position side profit stop) = Fin 3000"
  "slTriggerPx (eth_position side profit stop) = stop"
  by (simp_all add: eth_position_def)

lemma account_with_equity [simp]: "totalEq (balance (account_with ps)) = Fin 1000"
  by (simp add: account_with_def)

lemma candles3m_market_with [simp]: "candles3m (market_with t h m) = m"
  by (simp add: market_with_def)

lemma currentPrice_ticker_at [simp]: "currentPrice_of (market_with (ticker_at x) h m) = Fin x"
  by (simp add: currentPrice_of_def market_with_def ticker_at_def)

lemma no_hourly_candles [simp]: "direction (analyze1HTrend (candles1H (market_with t [] m))) = NEUTRAL"
  by (simp add: market_with_def analyze1HTrend_def)

lemma recent_candles_target_long:
  "targetSL_long (eth_position long profit stop) (Fin 3050) (slice_last5 recent_candles)
   = Fin (15018 / 5)"
  by (simp add: targetSL_long_def slice_last5_def recent_candles_def candle_at_def
      FEE_BUFFER_def Math_min_list_def Math_min_def Math_max_def jgt_def Let_def)




lemma eth_position_at_fields [simp]:
  "posSide (eth_position_at entry side profit stop) = side"
  "upl (eth_position_at entry side profit stop) = Fin profit"
  "avgPx (eth_position_at entry side profit stop) = Fin entry"
  "slTriggerPx (eth_position_at entry side profit stop) = stop"
  by (simp_all add: eth_position_at_def)


section \<open>Maximum and minimum\<close>

lemma Math_max_bounds:
  "a \<noteq> NaN \<Longrightarrow> b \<noteq> NaN \<Longrightarrow>
   jle a (Math_max a b) \<and> jle b (Math_max a b) \<and> (Math_max a b = a \<or> Math_max a b = b)"
  by (cases a; cases b) (auto simp add: Math_max_def)

lemma Math_min_bounds:
  "a \<noteq> NaN \<Longrightarrow> b \<noteq> NaN \<Longrightarrow>
   jle (Math_min a b) a \<and> jle (Math_min a b) b \<and> (Math_min a b = a \<or> Math_min a b = b)"
  by (cases a; cases b) (auto simp add: Math_min_def)

lemma foldl_Math_min_least:
  "a \<noteq> NaN \<Longrightarrow> NaN \<notin> set xs \<Longrightarrow>
   foldl Math_min a xs \<in> insert a (set xs)
   \<and> jle (foldl Math_min a xs) a
   \<and> (\<forall>x \<in> set xs. jle (foldl Math_min a xs) x)"
proof (induction xs arbitrary: a)
  case Nil
  then show ?case by (simp add: jle_refl)
next
  case (Cons x xs)
  from Cons.prems have x: "x \<noteq> NaN" and xs: "NaN \<notin> set xs" by auto
  have m: "Math_min a x \<noteq> NaN"
    using Math_min_bounds [OF Cons.prems(1) x] Cons.prems(1) x by auto
  note ih = Cons.IH [OF m xs]
  note b = Math_min_bounds [OF Cons.prems(1) x]
  show ?case
    using ih b by (auto intro: jle_trans)
qed

lemma foldl_Math_max_greatest:
  "a \<noteq> NaN \<Longrightarrow> NaN \<notin> set xs \<Longrightarrow>
   foldl Math_max a xs \<in> insert a (set xs)
   \<and> jle a (foldl Math_max a xs)
   \<and> (\<forall>x \<in> set xs. jle x (foldl Math_max a xs))"
proof (induction xs arbitrary: a)
  case Nil
  then show ?case by (simp add: jle_refl)
next
  case (Cons x xs)
  from Cons.prems have x: "x \<noteq> NaN" and xs: "NaN \<notin> set xs" by auto
  have m: "Math_max a x \<noteq> NaN"
    using Math_max_bounds [OF Cons.prems(1) x] Cons.prems(1) x by auto
  note ih = Cons.IH [OF m xs]
  note b = Math_max_bounds [OF Cons.prems(1) x]
  show ?case
    using ih b by (auto intro: jle_trans)
qed

lemma Math_min_list_least:
  "NaN \<notin> set xs \<Longrightarrow>
   (xs \<noteq> [] \<and> PosInf \<notin> set xs \<longrightarrow> Math_min_list xs \<in> set xs)
   \<and> (\<forall>x \<in> set xs. jle (Math_min_list xs) x)"
proof -
  assume n: "NaN \<notin> set xs"
  have f: "foldl Math_min PosInf xs \<in> insert PosInf (set xs)
           \<and> (\<forall>x \<in> set xs. jle (foldl Math_min PosInf xs) x)"
    using foldl_Math_min_least [of PosInf xs] n by simp
  have "foldl Math_min PosInf xs \<in> set xs" if "xs \<noteq> []" "PosInf \<notin> set xs"
  proof (rule ccontr)
    assume "foldl Math_min PosInf xs \<notin> set xs"
    with f have e: "foldl Math_min PosInf xs = PosInf" by auto
    from that obtain x where x: "x \<in> set xs" by (cases xs) auto
    with f e have "jle PosInf x" by auto
    then have "x = PosInf" by (cases x) simp_all
    with x that show False by simp
  qed
  with f show ?thesis by (simp add: Math_min_list_def)
qed

lemma jle_antisym: "jle a b \<Longrightarrow> jle b a \<Longrightarrow> a = b"
  by (cases a; cases b) simp_all

lemma jle_not_NaN: "jle a b \<Longrightarrow> a \<noteq> NaN \<and> b \<noteq> NaN"
  by (cases a; cases b) simp_all

lemma Math_min_list_eq:
  assumes "lo \<in> set xs" and "\<forall>x \<in> set xs. jle lo x"
  shows "Math_min_list xs = lo"
proof -
  have n: "NaN \<notin> set xs" using assms(2) jle_not_NaN by blast
  from foldl_Math_min_least [of PosInf xs] n
  have f: "foldl Math_min PosInf xs \<in> insert PosInf (set xs)"
    and l: "\<forall>x \<in> set xs. jle (foldl Math_min PosInf xs) x"
    by simp_all
  from l assms(1) have a: "jle (foldl Math_min PosInf xs) lo" by blast
  have "jle lo (foldl Math_min PosInf xs)"
  proof (cases "foldl Math_min PosInf xs \<in> set xs")
    case True
    with assms(2) show ?thesis by blast
  next
    case False
    with f have "foldl Math_min PosInf xs = PosInf" by simp
    with a show ?thesis by (cases lo) simp_all
  qed
  with a show ?thesis by (simp add: Math_min_list_def jle_antisym)
qed

lemma Math_max_list_eq:
  assumes "hi \<in> set xs" and "\<forall>x \<in> set xs. jle x hi"
  shows "Math_max_list xs = hi"
proof -
  have n: "NaN \<notin> set xs" using assms(2) jle_not_NaN by blast
  from foldl_Math_max_greatest [of NegInf xs] n
  have f: "foldl Math_max NegInf xs \<in> insert NegInf (set xs)"
    and l: "\<forall>x \<in> set xs. jle x (foldl Math_max NegInf xs)"
    by simp_all
  from l assms(1) have a: "jle hi (foldl Math_max NegInf xs)" by blast
  have "jle (foldl Math_max NegInf xs) hi"
  proof (cases "foldl Math_max NegInf xs \<in> set xs")
    case True
    with assms(2) show ?thesis by blast
  next
    case False
    with f have "foldl Math_max NegInf xs = NegInf" by simp
    with a show ?thesis by (cases hi) simp_all
  qed
  with a show ?thesis by (simp add: Math_max_list_def jle_antisym)
qed

lemma slice_last5_append:
  "length recent = 5 \<or> (older = [] \<and> length recent < 5) \<Longrightarrow>
   slice_last5 (older @ recent) = recent"
  by (auto simp add: slice_last5_def)

lemma jmul_positive_not_NaN: "a \<noteq> NaN \<Longrightarrow> 0 < c \<Longrightarrow> jmul a (Fin c) \<noteq> NaN"
  by (cases a) (simp_all add: signed_inf_def)

section \<open>Break-even and the trailing stop\<close>

text \<open>
  Claim C6. Let \<open>recent\<close> be the last five three-minute candles (all of them when there
  are fewer). In the trailing-stop evaluation of a long position, let \<open>lo\<close> be the least
  low of \<open>recent\<close>: a low of one of these candles that is at most the low of each. When
  the current price is strictly above the break-even price (entry times 1.0012), the
  candidate stop is the maximum of the technical trail (\<open>lo\<close> times 0.9995) and the
  break-even price: it is one of the two and at least both, and the guard is applied to
  it. For any other side, with \<open>hi\<close> the greatest high of \<open>recent\<close>, the break-even
  price is entry times 0.9988, the trail is \<open>hi\<close> times 1.0005, and once the price is
  strictly below break-even the candidate is the minimum of the two: one of them and at
  most both.
\<close>

theorem breakeven_trail:
  assumes "find (\<lambda>p. instId p = INSTRUMENT_ID) (positions accountData) = Some p"
    and "jgt (pos p) (Fin 0)"
    and "\<not> ((direction (analyze1HTrend (candles1H marketData)) = UP \<and> posSide p \<noteq> long)
           \<or> (direction (analyze1HTrend (candles1H marketData)) = DOWN \<and> posSide p = long))"
    and "candles3m marketData = older @ recent"
    and "length recent = 5 \<or> (older = [] \<and> length recent < 5)"
  shows
    "let v = decisionLogic marketData accountData;
         price = currentPrice_of marketData;
         existing = (case slTriggerPx p of None \<Rightarrow> Fin 0 | Some s \<Rightarrow> s);
         be_long = jmul (avgPx p) (Fin (10012 / 10000));
         trail_long = jmul lo (Fin (9995 / 10000));
         target_long = Math_max trail_long be_long;
         be_short = jmul (avgPx p) (Fin (9988 / 10000));
         trail_short = jmul hi (Fin (10005 / 10000));
         target_short = Math_min trail_short be_short
     in (posSide p = long \<and> jgt price be_long
           \<and> lo \<in> candle_l ` set recent \<and> (\<forall>c \<in> set recent. jle lo (candle_l c)) \<longrightarrow>
           (target_long = trail_long \<or> target_long = be_long)
           \<and> jle trail_long target_long \<and> jle be_long target_long
           \<and> finalSL v =
               (if jgt target_long existing \<and> jlt target_long price
                then Some (toFixed2 target_long) else None))
        \<and> (posSide p \<noteq> long \<and> jlt price be_short
             \<and> hi \<in> candle_h ` set recent \<and> (\<forall>c \<in> set recent. jle (candle_h c) hi) \<longrightarrow>
             (target_short = trail_short \<or> target_short = be_short)
             \<and> jle target_short trail_short \<and> jle target_short be_short
             \<and> finalSL v =
                 (if (existing = Fin 0 \<or> jlt target_short existing)
                     \<and> jgt target_short price
                  then Some (toFixed2 target_short) else None))"
proof -
  have bl: "jadd (Fin 1) FEE_BUFFER = Fin (10012 / 10000)"
    and bs: "jsub (Fin 1) FEE_BUFFER = Fin (9988 / 10000)"
    by (simp_all add: FEE_BUFFER_def jsub_def)
  have sl: "slice_last5 (candles3m marketData) = recent"
    unfolding assms(4) using assms(5) by (rule slice_last5_append)
  let ?price = "currentPrice_of marketData"
  let ?existing = "case slTriggerPx p of None \<Rightarrow> Fin 0 | Some s \<Rightarrow> s"
  let ?bl = "jmul (avgPx p) (Fin (10012 / 10000))"
  let ?tl = "jmul lo (Fin (9995 / 10000))"
  let ?bs = "jmul (avgPx p) (Fin (9988 / 10000))"
  let ?ts = "jmul hi (Fin (10005 / 10000))"
  have long_case:
    "(Math_max ?tl ?bl = ?tl \<or> Math_max ?tl ?bl = ?bl)
     \<and> jle ?tl (Math_max ?tl ?bl) \<and> jle ?bl (Math_max ?tl ?bl)
     \<and> finalSL (decisionLogic marketData accountData) =
         (if jgt (Math_max ?tl ?bl) ?existing \<and> jlt (Math_max ?tl ?bl) ?price
          then Some (toFixed2 (Math_max ?tl ?bl)) else None)"
    if h: "posSide p = long \<and> jgt ?price ?bl
           \<and> lo \<in> candle_l ` set recent \<and> (\<forall>c \<in> set recent. jle lo (candle_l c))"
  proof -
    from h have m: "Math_min_list (map candle_l recent) = lo"
      by (intro Math_min_list_eq) auto
    from h have "lo \<noteq> NaN" using jle_not_NaN by blast
    then have t: "?tl \<noteq> NaN" by (rule jmul_positive_not_NaN) simp
    from h have b: "?bl \<noteq> NaN" using jlt_not_NaN by (auto simp add: jgt_def)
    have tg: "targetSL_long p ?price recent = Math_max ?tl ?bl"
      using h by (simp add: targetSL_long_def Let_def bl m)
    show ?thesis
      unfolding decisionLogic_no_reversal [OF assms(1-3)]
      using h Math_max_bounds [OF t b]
      by (simp add: trailingSL_long sl tg)
  qed
  have short_case:
    "(Math_min ?ts ?bs = ?ts \<or> Math_min ?ts ?bs = ?bs)
     \<and> jle (Math_min ?ts ?bs) ?ts \<and> jle (Math_min ?ts ?bs) ?bs
     \<and> finalSL (decisionLogic marketData accountData) =
         (if (?existing = Fin 0 \<or> jlt (Math_min ?ts ?bs) ?existing)
             \<and> jgt (Math_min ?ts ?bs) ?price
          then Some (toFixed2 (Math_min ?ts ?bs)) else None)"
    if h: "posSide p \<noteq> long \<and> jlt ?price ?bs
           \<and> hi \<in> candle_h ` set recent \<and> (\<forall>c \<in> set recent. jle (candle_h c) hi)"
  proof -
    from h have m: "Math_max_list (map candle_h recent) = hi"
      by (intro Math_max_list_eq) auto
    from h have "hi \<noteq> NaN" using jle_not_NaN by blast
    then have t: "?ts \<noteq> NaN" by (rule jmul_positive_not_NaN) simp
    from h have b: "?bs \<noteq> NaN" using jlt_not_NaN by auto
    have tg: "targetSL_short p ?price recent = Math_min ?ts ?bs"
      using h by (simp add: targetSL_short_def Let_def bs m)
    show ?thesis
      unfolding decisionLogic_no_reversal [OF assms(1-3)]
      using h Math_min_bounds [OF t b]
      by (simp add: trailingSL_short sl tg)
  qed
  show ?thesis
    unfolding Let_def using long_case short_case by blast
qed

theorem breakeven_trail_witness:
  "candles3m (market_with (ticker_at 3050) [] (old_candle # late_lows)) = [old_candle] @ late_lows
   \<and> length late_lows = 5
   \<and> Fin 3008 \<in> candle_l ` set late_lows
   \<and> list_all (\<lambda>c. jle (Fin 3008) (candle_l c)) late_lows
   \<and> jgt (Fin 3050) (jmul (Fin 3000) (Fin (10012 / 10000)))
   \<and> Math_max (jmul (Fin 3008) (Fin (9995 / 10000))) (jmul (Fin 3000) (Fin (10012 / 10000)))
       = Fin (3006496 / 1000)
   \<and> finalSL (decisionLogic (market_with (ticker_at 3050) [] (old_candle # late_lows))
                (account_with [eth_position long 10 None]))
       = Some (Fin (300650 / 100))
   \<and> Fin 2960 \<in> candle_h ` set late_highs
   \<and> list_all (\<lambda>c. jle (candle_h c) (Fin 2960)) late_highs
   \<and> jlt (Fin 2950) (jmul (Fin 3000) (Fin (9988 / 10000)))
   \<and> Math_min (jmul (Fin 2960) (Fin (10005 / 10000))) (jmul (Fin 3000) (Fin (9988 / 10000)))
       = Fin (296148 / 100)
   \<and> finalSL (decisionLogic (market_with (ticker_at 2950) [] (old_candle # late_highs))
                (account_with [eth_position short 10 None]))
       = Some (Fin (296148 / 100))
   \<and> Fin 2990 \<in> candle_l ` set recent_candles
   \<and> list_all (\<lambda>c. jle (Fin 2990) (candle_l c)) recent_candles
   \<and> Math_max (jmul (Fin 2990) (Fin (9995 / 10000))) (jmul (Fin 3000) (Fin (10012 / 10000)))
       = Fin (300360 / 100)
   \<and> finalSL (decisionLogic (market_with (ticker_at 3050) [] recent_candles)
                (account_with [eth_position long 10 None]))
       = Some (Fin (300360 / 100))"
proof -
  have r1: "round2 (375812 / 125) = 6013 / 2"
    and r2: "round2 (74037 / 25) = 74037 / 25"
    and r3: "round2 (15018 / 5) = 15018 / 5"
    by code_simp+
  have c1: "candles3m (market_with (ticker_at 3050) [] (old_candle # late_lows))
            = [old_candle] @ late_lows"
    and c2: "candles3m (market_with (ticker_at 2950) [] (old_candle # late_highs))
            = [old_candle] @ late_highs"
    and c3: "candles3m (market_with (ticker_at 3050) [] recent_candles) = [] @ recent_candles"
    by simp_all
  have n1: "length late_lows = 5 \<or> ([old_candle] = [] \<and> length late_lows < 5)"
    and n2: "length late_highs = 5 \<or> ([old_candle] = [] \<and> length late_highs < 5)"
    and n3: "length recent_candles = 5 \<or> (([] :: CandleData list) = [] \<and> length recent_candles < 5)"
    by (simp_all add: late_lows_def late_highs_def recent_candles_def)
  have w1: "finalSL (decisionLogic (market_with (ticker_at 3050) [] (old_candle # late_lows))
                (account_with [eth_position long 10 None])) = Some (Fin (300650 / 100))"
    using breakeven_trail [OF find_eth_position pos_eth_position _ c1 n1,
        where lo = "Fin 3008" and hi = "Fin 0"]
    by (simp add: Let_def late_lows_def candle_at_def Math_max_def jgt_def r1)
  have w2: "finalSL (decisionLogic (market_with (ticker_at 2950) [] (old_candle # late_highs))
                (account_with [eth_position short 10 None])) = Some (Fin (296148 / 100))"
    using breakeven_trail [OF find_eth_position pos_eth_position _ c2 n2,
        where lo = "Fin 0" and hi = "Fin 2960"]
    by (simp add: Let_def late_highs_def candle_at_def Math_min_def jgt_def r2)
  have w3: "finalSL (decisionLogic (market_with (ticker_at 3050) [] recent_candles)
                (account_with [eth_position long 10 None])) = Some (Fin (300360 / 100))"
    using breakeven_trail [OF find_eth_position pos_eth_position _ c3 n3,
        where lo = "Fin 2990" and hi = "Fin 0"]
    by (simp add: Let_def recent_candles_def candle_at_def Math_max_def jgt_def r3)
  show ?thesis
    unfolding w1 w2 w3
    by (simp add: late_lows_def late_highs_def recent_candles_def candle_at_def
        Math_max_def Math_min_def jgt_def)
qed

section \<open>The returned decision\<close>

lemma applyAnnotation_fields [simp]:
  "action (applyAnnotation text d) = action d"
  "size (applyAnnotation text d) = size d"
  "leverage (applyAnnotation text d) = leverage d"
  "td_action (trading_decision (applyAnnotation text d)) = td_action (trading_decision d)"
  "stop_loss (trading_decision (applyAnnotation text d)) = stop_loss (trading_decision d)"
  "position_size (trading_decision (applyAnnotation text d)) = position_size (trading_decision d)"
  "td_leverage (trading_decision (applyAnnotation text d)) = td_leverage (trading_decision d)"
  by (simp_all add: applyAnnotation_def split: ai_content.splits)

lemma applyAnnotation_NotJson [simp]: "applyAnnotation NotJson d = d"
  by (simp add: applyAnnotation_def)

lemma applyAnnotation_NoContent [simp]: "applyAnnotation NoContent d = d"
  by (simp add: applyAnnotation_def)

text \<open>
  The three ways \<open>getTradingDecision\<close> ends: the guard on the API key throws, the
  outer \<open>catch\<close> returns the error decision, or the annotated decision is returned
  with the size derived from the computed action.
\<close>

lemma getTradingDecision_empty_key:
  "getTradingDecision lev [] marketData accountData response = Inl Error_enter_key"
  by (simp add: getTradingDecision_def)

lemma getTradingDecision_call_failed:
  "apiKey \<noteq> [] \<Longrightarrow> callDeepSeek apiKey response = Inl e \<Longrightarrow>
   getTradingDecision lev apiKey marketData accountData response = Inr errorDecision"
  by (simp add: getTradingDecision_def Let_def)

lemma getTradingDecision_call_returned:
  "apiKey \<noteq> [] \<Longrightarrow> callDeepSeek apiKey response = Inr text \<Longrightarrow>
   getTradingDecision lev apiKey marketData accountData response =
     Inr ((applyAnnotation text (defaultDecision lev (decisionLogic marketData accountData)))
            \<lparr>size :=
               (if finalAction (decisionLogic marketData accountData) = BUY
                   \<or> finalAction (decisionLogic marketData accountData) = SELL
                then toFixed2 (Math_max
                       (contracts_of lev (totalEq (balance accountData))
                          (currentPrice_of marketData))
                       (Fin (1 / 100)))
                else Fin 0)\<rparr>)"
  by (simp add: getTradingDecision_def Let_def defaultDecision_def applyAnnotation_def
      split: ai_content.splits)

lemma round2_at_least_cent:
  assumes "1 / 100 \<le> x"
  shows "1 / 100 \<le> round2 x"
proof -
  have "(1 :: rat) \<le> x * 100 + 1 / 2" using assms by simp
  then have "(1 :: int) \<le> \<lfloor>x * 100 + 1 / 2\<rfloor>" by (simp add: le_floor_iff)
  then have "(1 :: rat) \<le> of_int \<lfloor>x * 100 + 1 / 2\<rfloor>" by linarith
  moreover have "\<not> x < 0" using assms by simp
  ultimately show ?thesis by (simp add: round2_def)
qed

lemma size_of_order:
  assumes "getTradingDecision lev apiKey marketData accountData response = Inr d"
    and "action d = BUY \<or> action d = SELL"
  shows
    "size d =
       toFixed2 (Math_max
         (jdiv (jmul (jmul (totalEq (balance accountData)) (Fin (5 / 100))) lev)
               (jmul (Fin (1 / 10)) (currentPrice_of marketData)))
         (Fin (1 / 100)))"
proof -
  from assms(1) have key: "apiKey \<noteq> []"
    by (auto simp add: getTradingDecision_def)
  have "\<exists>reply. callDeepSeek apiKey response = Inr reply"
  proof (cases "callDeepSeek apiKey response")
    case (Inl e)
    from getTradingDecision_call_failed [OF key Inl, of lev marketData accountData] assms(1)
    have "d = errorDecision" by simp
    then have "action d = HOLD" by (simp add: errorDecision_def)
    with assms(2) show ?thesis by simp
  next
    case (Inr reply)
    then show ?thesis by simp
  qed
  then obtain reply where reply: "callDeepSeek apiKey response = Inr reply" ..
  note eq = getTradingDecision_call_returned [OF key reply, of lev marketData accountData]
  from assms eq have act: "finalAction (decisionLogic marketData accountData) = BUY
      \<or> finalAction (decisionLogic marketData accountData) = SELL"
    by (auto simp add: defaultDecision_def)
  from assms(1) eq act show ?thesis
    by (auto simp add: contracts_of_def CONTRACT_VAL_ETH_def Let_def)
qed

text \<open>
  Claim C9. Whenever the returned action is BUY or SELL, the size is
  \<open>(totalEquity * 0.05 * leverage) / (0.1 * currentPrice)\<close>, raised to at least 0.01 and
  printed with two decimals, where the leverage is the configured constant. It is a function
  of equity, leverage and price alone; for finite values and a non-zero price it is the
  rounded maximum of the quotient and 0.01, and at least 0.01.
\<close>

theorem contract_size:
  assumes "getTradingDecision lev apiKey marketData accountData response = Inr d"
    and "action d = BUY \<or> action d = SELL"
  shows
    "size d =
       toFixed2 (Math_max
         (jdiv (jmul (jmul (totalEq (balance accountData)) (Fin (5 / 100))) lev)
               (jmul (Fin (1 / 10)) (currentPrice_of marketData)))
         (Fin (1 / 100)))
     \<and> (\<forall>e l p. totalEq (balance accountData) = Fin e \<and> lev = Fin l
            \<and> currentPrice_of marketData = Fin p \<and> p \<noteq> 0 \<longrightarrow>
          size d = Fin (round2 (max ((5 / 100 * e * l) / (1 / 10 * p)) (1 / 100)))
          \<and> jle (Fin (1 / 100)) (size d))"
proof -
  note sz = size_of_order [OF assms]
  have fin: "size d = Fin (round2 (max ((5 / 100 * e * l) / (1 / 10 * p)) (1 / 100)))
          \<and> jle (Fin (1 / 100)) (size d)"
    if "totalEq (balance accountData) = Fin e \<and> lev = Fin l
        \<and> currentPrice_of marketData = Fin p \<and> p \<noteq> 0" for e l p
  proof -
    have "1 / 100 \<le> round2 (max ((5 / 100 * e * l) / (1 / 10 * p)) (1 / 100))"
      by (rule round2_at_least_cent) simp
    moreover have "size d = Fin (round2 (max ((5 / 100 * e * l) / (1 / 10 * p)) (1 / 100)))"
      using that sz by (simp add: Math_max_def max_def mult.commute)
    ultimately show ?thesis by simp
  qed
  show ?thesis using sz fin by blast
qed

lemma trim_key [simp]: "trim ''key'' = ''key''"
  by (simp add: trim_def is_white_space_def)

lemma callDeepSeek_key:
  "callDeepSeek ''key'' response =
     (case response of Content reply \<Rightarrow> Inr reply | _ \<Rightarrow> Inl Error_request)"
  by (simp add: callDeepSeek_def split: deepseek_response.splits)

lemma rolling_example:
  "finalAction (decisionLogic (market_with t [] m) (account_with [eth_position long 100 stop]))
   = BUY"
  using decisionLogic_no_reversal [OF find_eth_position pos_eth_position,
      of "market_with t [] m" long 100 stop]
  by (simp add: jge_def)

lemma rolling_example_decision:
  "\<exists>d. getTradingDecision (Fin 5) ''key'' (market_with t [] m)
          (account_with [eth_position long 100 stop]) (Content NotJson) = Inr d
       \<and> action d = BUY"
  using getTradingDecision_call_returned [of "''key''" "Content NotJson" NotJson "Fin 5"
      "market_with t [] m" "account_with [eth_position long 100 stop]"]
  by (simp add: callDeepSeek_key rolling_example defaultDecision_def)

theorem contract_size_witness:
  "\<exists>d. getTradingDecision (Fin 5) ''key'' (market_with (ticker_at 3050) [] recent_candles)
          (account_with [eth_position long 100 None]) (Content NotJson) = Inr d
       \<and> action d = BUY
       \<and> size d = Fin (82 / 100)"
proof -
  obtain d where d: "getTradingDecision (Fin 5) ''key''
          (market_with (ticker_at 3050) [] recent_candles)
          (account_with [eth_position long 100 None]) (Content NotJson) = Inr d"
    and a: "action d = BUY"
    using rolling_example_decision by blast
  have r: "round2 (50 / 61) = 82 / 100" by code_simp
  from a have "action d = BUY \<or> action d = SELL" by simp
  from contract_size [OF d this] have "size d = Fin (82 / 100)"
    by (auto simp add: max_def r)
  with d a show ?thesis by blast
qed

text \<open>
  Claim C10. The division of the size computation has no guard against a zero divisor.
  When the ticker is absent, or its last price is empty or zero, the current price is
  zero; if the returned action is BUY or SELL and equity times leverage is positive, the
  contract count is the infinity and so is the returned size; if equity times leverage is
  zero the size is NaN.
\<close>

theorem size_not_finite_at_zero_price:
  assumes "getTradingDecision lev apiKey marketData accountData response = Inr d"
    and "action d = BUY \<or> action d = SELL"
    and "ticker marketData = None
         \<or> ticker marketData = Some \<lparr>ticker_last = None\<rparr>
         \<or> ticker marketData = Some \<lparr>ticker_last = Some (Fin 0)\<rparr>"
    and "totalEq (balance accountData) = Fin e"
    and "lev = Fin l"
    and "0 \<le> e * l"
  shows "currentPrice_of marketData = Fin 0
         \<and> contracts_of lev (totalEq (balance accountData)) (currentPrice_of marketData)
             = (if e * l = 0 then NaN else PosInf)
         \<and> size d = (if e * l = 0 then NaN else PosInf)"
proof -
  from assms(3) have p: "currentPrice_of marketData = Fin 0"
    by (auto simp add: currentPrice_of_def)
  have pos: "0 < e * (5 / 100) * l" if "e * l \<noteq> 0"
  proof -
    from that assms(6) have "0 < e * l" by (simp add: less_le)
    moreover have "e * (5 / 100) * l = (5 / 100) * (e * l)" by simp
    ultimately show ?thesis by simp
  qed
  have c: "contracts_of lev (totalEq (balance accountData)) (currentPrice_of marketData)
           = (if e * l = 0 then NaN else PosInf)"
    using pos by (auto simp add: contracts_of_def CONTRACT_VAL_ETH_def Let_def p assms(4,5))
  have m: "jdiv (jmul (jmul (totalEq (balance accountData)) (Fin (5 / 100))) lev)
                (jmul (Fin (1 / 10)) (currentPrice_of marketData))
           = (if e * l = 0 then NaN else PosInf)"
    using c by (simp add: contracts_of_def CONTRACT_VAL_ETH_def Let_def)
  have "size d = (if e * l = 0 then NaN else PosInf)"
    using size_of_order [OF assms(1,2)] unfolding m
    by (simp add: Math_max_def)
  with p c show ?thesis by simp
qed

theorem size_not_finite_at_zero_price_witness:
  "\<exists>d. getTradingDecision (Fin 5) ''key'' (market_with None [] recent_candles)
          (account_with [eth_position long 100 None]) (Content NotJson) = Inr d
       \<and> action d = BUY
       \<and> ticker (market_with None [] recent_candles) = None
       \<and> totalEq (balance (account_with [eth_position long 100 None])) = Fin 1000
       \<and> (0 :: rat) \<le> 1000 * 5
       \<and> currentPrice_of (market_with None [] recent_candles) = Fin 0
       \<and> size d = PosInf"
proof -
  obtain d where d: "getTradingDecision (Fin 5) ''key''
          (market_with None [] recent_candles)
          (account_with [eth_position long 100 None]) (Content NotJson) = Inr d"
    and a: "action d = BUY"
    using rolling_example_decision by blast
  have t: "ticker (market_with None [] recent_candles) = None"
    by (simp add: market_with_def)
  from a have b: "action d = BUY \<or> action d = SELL" by simp
  have "currentPrice_of (market_with None [] recent_candles) = Fin 0 \<and> size d = PosInf"
    using size_not_finite_at_zero_price [OF d b _ _ refl, of 1000] t by simp
  with d a t show ?thesis by auto
qed

section \<open>Failure of the annotator\<close>

lemma callDeepSeek_valid_key:
  assumes "trim apiKey \<noteq> []"
    and "\<not> list_ex (\<lambda>ch. 127 < (of_char ch :: nat)) (trim apiKey)"
  shows "callDeepSeek apiKey response =
     (case response of Content reply \<Rightarrow> Inr reply | _ \<Rightarrow> Inl Error_request)"
proof -
  have "apiKey \<noteq> []" using assms(1) by (auto simp add: trim_def)
  then show ?thesis
    using assms by (simp add: callDeepSeek_def split: deepseek_response.splits)
qed

text \<open>
  Claim C1, as the code has it. With a usable API key, a reply whose message carries no
  content, and a content that is not parsable JSON, leave action, size and stop_loss at the
  computed values and every narrative field at its default text; every other content does
  so as far as action, size and stop_loss go. When the call itself throws (no response, a
  response that is not 2xx, a body that cannot be read as far as
  \<open>choices[0].message\<close>) the function returns the fixed error decision instead of the
  computed one.
\<close>

theorem annotator_outcomes:
  assumes "trim apiKey \<noteq> []"
    and "\<not> list_ex (\<lambda>ch. 127 < (of_char ch :: nat)) (trim apiKey)"
  shows
    "let v = decisionLogic marketData accountData;
         computedSize =
           (if finalAction v = BUY \<or> finalAction v = SELL
            then toFixed2 (Math_max
                   (contracts_of lev (totalEq (balance accountData))
                      (currentPrice_of marketData))
                   (Fin (1 / 100)))
            else Fin 0)
     in getTradingDecision lev apiKey marketData accountData (Content NotJson)
          = Inr ((defaultDecision lev v)\<lparr>size := computedSize\<rparr>)
        \<and> getTradingDecision lev apiKey marketData accountData (Content NoContent)
            = Inr ((defaultDecision lev v)\<lparr>size := computedSize\<rparr>)
        \<and> (\<forall>reply. \<exists>d.
              getTradingDecision lev apiKey marketData accountData (Content reply) = Inr d
              \<and> action d = finalAction v
              \<and> td_action (trading_decision d) = finalAction v
              \<and> size d = computedSize
              \<and> stop_loss (trading_decision d) = finalSL v)
        \<and> getTradingDecision lev apiKey marketData accountData Unreachable
            = Inr errorDecision
        \<and> (\<forall>status. getTradingDecision lev apiKey marketData accountData (NotOk status)
            = Inr errorDecision)
        \<and> getTradingDecision lev apiKey marketData accountData UnreadableBody
            = Inr errorDecision"
proof -
  have key: "apiKey \<noteq> []" using assms(1) by (auto simp add: trim_def)
  note call = callDeepSeek_valid_key [OF assms]
  have ok: "callDeepSeek apiKey (Content reply) = Inr reply" for reply
    by (simp add: call)
  have f1: "callDeepSeek apiKey Unreachable = Inl Error_request"
    and f2: "callDeepSeek apiKey (NotOk status) = Inl Error_request"
    and f3: "callDeepSeek apiKey UnreadableBody = Inl Error_request" for status
    by (simp_all add: call)
  show ?thesis
    unfolding Let_def
    by (simp add: getTradingDecision_call_returned [OF key ok]
        getTradingDecision_call_failed [OF key f1]
        getTradingDecision_call_failed [OF key f2]
        getTradingDecision_call_failed [OF key f3] defaultDecision_def)
qed

theorem annotator_outcomes_witness:
  "trim ''key'' \<noteq> []
   \<and> \<not> list_ex (\<lambda>ch. 127 < (of_char ch :: nat)) (trim ''key'')
   \<and> getTradingDecision (Fin 5) ''key'' (market_with (ticker_at 3050) [] recent_candles)
        (account_with [eth_position long 100 None]) (Content NotJson)
       = Inr ((defaultDecision (Fin 5)
                (decisionLogic (market_with (ticker_at 3050) [] recent_candles)
                   (account_with [eth_position long 100 None])))\<lparr>size := Fin (82 / 100)\<rparr>)
   \<and> getTradingDecision (Fin 5) ''key'' (market_with (ticker_at 3050) [] recent_candles)
        (account_with [eth_position long 100 None]) (Content NoContent)
       = Inr ((defaultDecision (Fin 5)
                (decisionLogic (market_with (ticker_at 3050) [] recent_candles)
                   (account_with [eth_position long 100 None])))\<lparr>size := Fin (82 / 100)\<rparr>)
   \<and> getTradingDecision (Fin 5) ''key'' (market_with (ticker_at 3050) [] recent_candles)
        (account_with [eth_position long 100 None]) Unreachable
       = Inr errorDecision
   \<and> getTradingDecision (Fin 5) ''key'' (market_with (ticker_at 3050) [] recent_candles)
        (account_with [eth_position long 100 None]) UnreadableBody
       = Inr errorDecision"
proof -
  have k: "trim ''key'' \<noteq> []"
    "\<not> list_ex (\<lambda>ch. 127 < (of_char ch :: nat)) (trim ''key'')"
    by simp_all
  have r: "round2 (50 / 61) = 82 / 100" by code_simp
  have c: "toFixed2 (Math_max (contracts_of (Fin 5) (Fin 1000) (Fin 3050)) (Fin (1 / 100)))
           = Fin (82 / 100)"
    by (simp add: contracts_of_def CONTRACT_VAL_ETH_def Math_max_def r)
  show ?thesis
    using annotator_outcomes [OF k, of "market_with (ticker_at 3050) [] recent_candles"
        "account_with [eth_position long 100 None]" "Fin 5"] k
    by (simp add: Let_def rolling_example c)
qed

text \<open>
  The claim as it was stated fails: the strategy computes BUY with a stop, the annotator
  is unreachable, and the decision returned is the error decision, whose action is HOLD.
\<close>

theorem annotator_failure_counterexample:
  "finalAction (decisionLogic (market_with (ticker_at 3050) [] recent_candles)
                  (account_with [eth_position long 100 None])) = BUY
   \<and> finalSL (decisionLogic (market_with (ticker_at 3050) [] recent_candles)
                  (account_with [eth_position long 100 None])) = Some (Fin (15018 / 5))
   \<and> getTradingDecision (Fin 5) ''key'' (market_with (ticker_at 3050) [] recent_candles)
        (account_with [eth_position long 100 None]) Unreachable = Inr errorDecision
   \<and> action errorDecision = HOLD
   \<and> size errorDecision = Fin 0
   \<and> stop_loss (trading_decision errorDecision) = None"
proof -
  have r2: "round2 (15018 / 5) = 15018 / 5"
    by code_simp
  have f: "callDeepSeek ''key'' Unreachable = Inl Error_request"
    by (simp add: callDeepSeek_key)
  have sl: "finalSL (decisionLogic (market_with (ticker_at 3050) [] recent_candles)
                  (account_with [eth_position long 100 None])) = Some (Fin (15018 / 5))"
    using decisionLogic_no_reversal [OF find_eth_position pos_eth_position,
      of "market_with (ticker_at 3050) [] recent_candles" long 100 None]
    by (simp add: trailingSL_long recent_candles_target_long jgt_def r2)
  show ?thesis
    using getTradingDecision_call_failed [OF _ f] sl
    by (simp add: rolling_example errorDecision_def)
qed

text \<open>
  Claim C5, as the code has it. With a non-empty API key the function always returns a
  decision and never throws; whenever the annotator call fails, for whatever reason, the
  decision returned is the error decision, with action HOLD, size 0 and leverage 0. The
  function returns a decision exactly when the API key is not empty.
\<close>

theorem never_throws_with_key:
  "(apiKey \<noteq> [] \<longrightarrow>
      (\<exists>d. getTradingDecision lev apiKey marketData accountData response = Inr d)
      \<and> (\<forall>e. callDeepSeek apiKey response = Inl e \<longrightarrow>
             getTradingDecision lev apiKey marketData accountData response = Inr errorDecision))
   \<and> ((\<exists>d. getTradingDecision lev apiKey marketData accountData response = Inr d)
        \<longleftrightarrow> apiKey \<noteq> [])
   \<and> action errorDecision = HOLD \<and> size errorDecision = Fin 0
   \<and> leverage errorDecision = Fin 0"
proof -
  have r: "\<exists>d. getTradingDecision lev apiKey marketData accountData response = Inr d"
    if "apiKey \<noteq> []"
  proof (cases "callDeepSeek apiKey response")
    case (Inl e)
    then show ?thesis using getTradingDecision_call_failed [OF that Inl] by blast
  next
    case (Inr reply)
    then show ?thesis using getTradingDecision_call_returned [OF that Inr] by blast
  qed
  have t: "\<not> (\<exists>d. getTradingDecision lev [] marketData accountData response = Inr d)"
    by (simp add: getTradingDecision_empty_key)
  show ?thesis
    using r t getTradingDecision_call_failed [of apiKey response]
    by (auto simp add: errorDecision_def)
qed

theorem never_throws_with_key_witness:
  "''  '' \<noteq> []
   \<and> callDeepSeek ''  '' (Content NotJson) = Inl Error_key_empty
   \<and> getTradingDecision (Fin 5) ''  '' (market_with (ticker_at 3050) [] recent_candles)
        (account_with [eth_position long 100 None]) (Content NotJson) = Inr errorDecision"
proof -
  have c: "callDeepSeek ''  '' (Content NotJson) = Inl Error_key_empty"
    by (simp add: callDeepSeek_def trim_def is_white_space_def)
  show ?thesis
    using never_throws_with_key [of "''  ''" "Fin 5"
        "market_with (ticker_at 3050) [] recent_candles"
        "account_with [eth_position long 100 None]" "Content NotJson"] c
    by simp
qed

text \<open>
  The claim as it was stated fails at the empty API key: the promise is rejected.
\<close>

theorem empty_key_counterexample:
  "getTradingDecision (Fin 5) [] (market_with (ticker_at 3050) [] recent_candles)
     (account_with [eth_position long 100 None]) (Content NotJson) = Inl Error_enter_key"
  by (rule getTradingDecision_empty_key)

section \<open>The backward scan\<close>

lemma scanDeathZone_scanZone:
  "scanDeathZone ema15 ema60 lows n found lowest =
   scanZone (\<lambda>x. jlt (ema15 ! x) (ema60 ! x)) jlt lows n found lowest"
  by (induction n arbitrary: found lowest) (simp_all add: keep_better_def)

lemma scanGoldZone_scanZone:
  "scanGoldZone ema15 ema60 highs n found highest =
   scanZone (\<lambda>x. jgt (ema15 ! x) (ema60 ! x)) jgt highs n found highest"
  by (induction n arbitrary: found highest) (simp_all add: keep_better_def)

lemma scanZone_found:
  "fst (scanZone Z better vals n found best) = (found \<or> (\<exists>x<n. Z x))"
proof (induction n arbitrary: found best)
  case 0
  show ?case by simp
next
  case (Suc n)
  show ?case
  proof (cases "Z n")
    case True
    then show ?thesis using Suc.IH by auto
  next
    case False
    then have "(\<exists>x<Suc n. Z x) = (\<exists>x<n. Z x)"
      by (auto simp add: less_Suc_eq)
    then show ?thesis using False Suc.IH by simp
  qed
qed

lemma rev_map_upt_Suc:
  "a \<le> n \<Longrightarrow> rev (map f [a..<Suc n]) = f n # rev (map f [a..<n])"
  by simp

text \<open>Once a zone candle has been seen, the scan runs to the lower end of that run.\<close>

lemma scanZone_run:
  "\<exists>a\<le>n. (\<forall>x. a \<le> x \<and> x < n \<longrightarrow> Z x) \<and> (a = 0 \<or> \<not> Z (a - 1))
     \<and> snd (scanZone Z better vals n True best) =
         foldl (keep_better better) best (rev (map ((!) vals) [a..<n]))"
proof (induction n arbitrary: best)
  case 0
  show ?case by simp
next
  case (Suc n)
  show ?case
  proof (cases "Z n")
    case True
    from Suc.IH [of "keep_better better best (vals ! n)"]
    obtain a where a: "a \<le> n" "\<forall>x. a \<le> x \<and> x < n \<longrightarrow> Z x" "a = 0 \<or> \<not> Z (a - 1)"
      and v: "snd (scanZone Z better vals n True (keep_better better best (vals ! n))) =
         foldl (keep_better better) (keep_better better best (vals ! n))
           (rev (map ((!) vals) [a..<n]))"
      by blast
    have z: "\<forall>x. a \<le> x \<and> x < Suc n \<longrightarrow> Z x"
      using a(2) True by (auto simp add: less_Suc_eq)
    have "snd (scanZone Z better vals (Suc n) True best) =
          foldl (keep_better better) best (rev (map ((!) vals) [a..<Suc n]))"
      using True v a(1) by (simp only: scanZone.simps rev_map_upt_Suc if_True foldl_Cons)
    with a z show ?thesis
      by (intro exI [of _ a]) simp
  next
    case False
    then show ?thesis
      by (intro exI [of _ "Suc n"]) auto
  qed
qed

text \<open>
  Before any zone candle has been seen, the scan skips the candles outside the zone and
  then covers the first run it meets, the one nearest to its start.
\<close>

lemma scanZone_first_run:
  "\<exists>x<n. Z x \<Longrightarrow>
   \<exists>a b. a \<le> b \<and> b < n \<and> (\<forall>x. a \<le> x \<and> x \<le> b \<longrightarrow> Z x)
     \<and> (\<forall>x. b < x \<and> x < n \<longrightarrow> \<not> Z x) \<and> (a = 0 \<or> \<not> Z (a - 1))
     \<and> snd (scanZone Z better vals n False best) =
         foldl (keep_better better) best (rev (map ((!) vals) [a..<Suc b]))"
proof (induction n arbitrary: best)
  case 0
  then show ?case by simp
next
  case (Suc n)
  show ?case
  proof (cases "Z n")
    case True
    from scanZone_run [of n Z better vals "keep_better better best (vals ! n)"]
    obtain a where a: "a \<le> n" "\<forall>x. a \<le> x \<and> x < n \<longrightarrow> Z x" "a = 0 \<or> \<not> Z (a - 1)"
      and v: "snd (scanZone Z better vals n True (keep_better better best (vals ! n))) =
         foldl (keep_better better) (keep_better better best (vals ! n))
           (rev (map ((!) vals) [a..<n]))"
      by blast
    have z: "\<forall>x. a \<le> x \<and> x \<le> n \<longrightarrow> Z x"
      using a(2) True by (auto simp add: le_less)
    have "snd (scanZone Z better vals (Suc n) False best) =
          foldl (keep_better better) best (rev (map ((!) vals) [a..<Suc n]))"
      using True v a(1) by (simp only: scanZone.simps rev_map_upt_Suc if_True foldl_Cons)
    with a z show ?thesis
      by (intro exI [of _ a] exI [of _ n]) simp
  next
    case False
    with Suc.prems have "\<exists>x<n. Z x"
      by (auto simp add: less_Suc_eq)
    from Suc.IH [OF this, of best]
    obtain a b where ab: "a \<le> b" "b < n" "\<forall>x. a \<le> x \<and> x \<le> b \<longrightarrow> Z x"
        "\<forall>x. b < x \<and> x < n \<longrightarrow> \<not> Z x" "a = 0 \<or> \<not> Z (a - 1)"
      and v: "snd (scanZone Z better vals n False best) =
         foldl (keep_better better) best (rev (map ((!) vals) [a..<Suc b]))"
      by blast
    have n: "\<forall>x. b < x \<and> x < Suc n \<longrightarrow> \<not> Z x"
      using ab(4) False by (auto simp add: less_Suc_eq)
    have "snd (scanZone Z better vals (Suc n) False best) =
          foldl (keep_better better) best (rev (map ((!) vals) [a..<Suc b]))"
      using False v by simp
    with ab n show ?thesis
      by (intro exI [of _ a] exI [of _ b]) simp
  qed
qed

lemma foldl_keep_better_mem:
  "foldl (keep_better better) best vs \<in> insert best (set vs)"
  by (induction vs arbitrary: best) (auto simp add: keep_better_def)

lemma foldl_keep_lower:
  "best \<noteq> NaN \<Longrightarrow> NaN \<notin> set vs \<Longrightarrow>
   jle (foldl (keep_better jlt) best vs) best
   \<and> (\<forall>v \<in> set vs. jle (foldl (keep_better jlt) best vs) v)"
proof (induction vs arbitrary: best)
  case Nil
  then show ?case by (simp add: jle_refl)
next
  case (Cons v vs)
  from Cons.prems have v: "v \<noteq> NaN" and vs: "NaN \<notin> set vs" by auto
  define b where "b = keep_better jlt best v"
  have b: "b \<noteq> NaN" "jle b best" "jle b v"
    using Cons.prems(1) v
    by (auto simp add: b_def keep_better_def jle_refl jlt_imp_jle jle_iff_not_jlt
        dest: jlt_asym)
  from Cons.IH [OF b(1) vs] b show ?case
    by (auto simp add: b_def intro: jle_trans)
qed

lemma foldl_keep_upper:
  "best \<noteq> NaN \<Longrightarrow> NaN \<notin> set vs \<Longrightarrow>
   jle best (foldl (keep_better jgt) best vs)
   \<and> (\<forall>v \<in> set vs. jle v (foldl (keep_better jgt) best vs))"
proof (induction vs arbitrary: best)
  case Nil
  then show ?case by (simp add: jle_refl)
next
  case (Cons v vs)
  from Cons.prems have v: "v \<noteq> NaN" and vs: "NaN \<notin> set vs" by auto
  define b where "b = keep_better jgt best v"
  have b: "b \<noteq> NaN" "jle best b" "jle v b"
    using Cons.prems(1) v
    by (auto simp add: b_def keep_better_def jgt_def jle_refl jlt_imp_jle jle_iff_not_jlt
        dest: jlt_asym)
  from Cons.IH [OF b(1) vs] b show ?case
    by (auto simp add: b_def intro: jle_trans)
qed

section \<open>The entry signal\<close>

lemma analyze3mEntry_UP:
  assumes "100 \<le> length candles"
  shows "analyze3mEntry candles UP =
     (let lows = map candle_l candles;
          ema15 = calcEMAArray (map candle_c candles) (Fin 15);
          ema60 = calcEMAArray (map candle_c candles) (Fin 60);
          i = length candles - 1;
          scan = scanZone (\<lambda>x. jlt (ema15 ! x) (ema60 ! x)) jlt lows i False (lows ! i);
          zone = (if jgt (ema15 ! i) (ema60 ! i) then Structure_gold_zone
                  else Structure_death_zone)
      in if jgt (ema15 ! i) (ema60 ! i) \<and> jle (ema15 ! (i - 1)) (ema60 ! (i - 1)) \<and> fst scan
         then \<lparr>signal = True, entry_action = BUY, sl = snd scan,
               reason = Reason_death_then_gold, entry_structure = zone\<rparr>
         else \<lparr>signal = False, entry_action = HOLD, sl = Fin 0,
               reason = Reason_wait_pullback, entry_structure = zone\<rparr>)"
  using assms
  by (simp add: analyze3mEntry_def longEntry_def shortEntry_def Let_def
      scanDeathZone_scanZone split: prod.splits)

lemma analyze3mEntry_DOWN:
  assumes "100 \<le> length candles"
  shows "analyze3mEntry candles DOWN =
     (let highs = map candle_h candles;
          ema15 = calcEMAArray (map candle_c candles) (Fin 15);
          ema60 = calcEMAArray (map candle_c candles) (Fin 60);
          i = length candles - 1;
          scan = scanZone (\<lambda>x. jgt (ema15 ! x) (ema60 ! x)) jgt highs i False (highs ! i);
          zone = (if jgt (ema15 ! i) (ema60 ! i) then Structure_gold_zone
                  else Structure_death_zone)
      in if jlt (ema15 ! i) (ema60 ! i) \<and> jge (ema15 ! (i - 1)) (ema60 ! (i - 1)) \<and> fst scan
         then \<lparr>signal = True, entry_action = SELL, sl = snd scan,
               reason = Reason_gold_then_death, entry_structure = zone\<rparr>
         else \<lparr>signal = False, entry_action = HOLD, sl = Fin 0,
               reason = Reason_wait_rebound, entry_structure = zone\<rparr>)"
  using assms
  by (simp add: analyze3mEntry_def longEntry_def shortEntry_def Let_def
      scanGoldZone_scanZone split: prod.splits)

lemma analyze3mEntry_NEUTRAL: "\<not> signal (analyze3mEntry candles NEUTRAL)"
  by (simp add: analyze3mEntry_def longEntry_def shortEntry_def Let_def)

lemma set_zone_values:
  "set (rev (map ((!) vals) [a..<Suc b])) = (\<lambda>x. vals ! x) ` {a..b}"
  by (simp only: set_rev set_map set_upt atLeastLessThanSuc_atLeastAtMost)

text \<open>
  What the scan started at the cross returns: whether a zone candle exists before the
  cross and, if so, the bounds of the nearest run of zone candles and the extreme kept.
\<close>

lemma scanZone_at_cross:
  assumes "fst (scanZone Z better vals i False (vals ! i))"
  shows "\<exists>a b. a \<le> b \<and> b < i \<and> (\<forall>x. a \<le> x \<and> x \<le> b \<longrightarrow> Z x)
     \<and> (\<forall>x. b < x \<and> x < i \<longrightarrow> \<not> Z x) \<and> (a = 0 \<or> \<not> Z (a - 1))
     \<and> snd (scanZone Z better vals i False (vals ! i)) \<in> (\<lambda>x. vals ! x) ` insert i {a..b}
     \<and> snd (scanZone Z better vals i False (vals ! i)) =
         foldl (keep_better better) (vals ! i) (rev (map ((!) vals) [a..<Suc b]))"
proof -
  from assms have "\<exists>x<i. Z x" by (simp add: scanZone_found)
  from scanZone_first_run [OF this, of better vals "vals ! i"]
  obtain a b where ab: "a \<le> b" "b < i" "\<forall>x. a \<le> x \<and> x \<le> b \<longrightarrow> Z x"
      "\<forall>x. b < x \<and> x < i \<longrightarrow> \<not> Z x" "a = 0 \<or> \<not> Z (a - 1)"
    and v: "snd (scanZone Z better vals i False (vals ! i)) =
       foldl (keep_better better) (vals ! i) (rev (map ((!) vals) [a..<Suc b]))"
    by blast
  note s = set_zone_values [of vals a b]
  have "snd (scanZone Z better vals i False (vals ! i)) \<in> (\<lambda>x. vals ! x) ` insert i {a..b}"
    using foldl_keep_better_mem [of better "vals ! i" "rev (map ((!) vals) [a..<Suc b])"]
    unfolding v s by auto
  with ab v show ?thesis by blast
qed

lemma zone_values_not_NaN:
  assumes "\<forall>x \<in> insert i {a..b}. vals ! x \<noteq> NaN"
  shows "vals ! i \<noteq> NaN \<and> NaN \<notin> set (rev (map ((!) vals) [a..<Suc b]))"
  unfolding set_zone_values using assms by (auto simp add: image_iff)

lemma zone_lowest:
  assumes "\<forall>x \<in> insert i {a..b}. vals ! x \<noteq> NaN"
  shows "\<forall>x \<in> insert i {a..b}.
           jle (foldl (keep_better jlt) (vals ! i) (rev (map ((!) vals) [a..<Suc b])))
               (vals ! x)"
  using foldl_keep_lower [of "vals ! i" "rev (map ((!) vals) [a..<Suc b])"]
    zone_values_not_NaN [OF assms]
  unfolding set_zone_values by auto

lemma zone_highest:
  assumes "\<forall>x \<in> insert i {a..b}. vals ! x \<noteq> NaN"
  shows "\<forall>x \<in> insert i {a..b}.
           jle (vals ! x)
               (foldl (keep_better jgt) (vals ! i) (rev (map ((!) vals) [a..<Suc b])))"
  using foldl_keep_upper [of "vals ! i" "rev (map ((!) vals) [a..<Suc b])"]
    zone_values_not_NaN [OF assms]
  unfolding set_zone_values by auto

lemma jle_not_jlt: "jle a b \<Longrightarrow> \<not> jlt b a"
  by (cases a; cases b) auto

text \<open>
  Claim C4. For at least 100 three-minute candles and trend UP, the entry detector
  signals exactly when the last candle \<open>i\<close> is a fresh golden cross (EMA15 above EMA60
  at \<open>i\<close>, not above at \<open>i - 1\<close>) and some earlier candle is in a death state (EMA15
  below EMA60). There is no signal when candle \<open>i - 1\<close> is already golden, when no death
  candle precedes, or when the trend is NEUTRAL. A signal is a BUY, and its stop is taken
  from the death zone, the run \<open>a..b\<close> of death candles nearest to the cross, which ends at
  the first candle that is not in a death state: the stop is the low of one of the candles
  \<open>a..b\<close> and \<open>i\<close>, and it is at most every one of these lows when they are numbers.
  The short case under trend DOWN is the mirror image, with the golden zone, the highs
  and SELL.
\<close>

theorem entry_signal:
  assumes "100 \<le> length candles"
  shows
    "let lows = map candle_l candles;
         highs = map candle_h candles;
         ema15 = calcEMAArray (map candle_c candles) (Fin 15);
         ema60 = calcEMAArray (map candle_c candles) (Fin 60);
         i = length candles - 1;
         death = (\<lambda>x. jlt (ema15 ! x) (ema60 ! x));
         gold = (\<lambda>x. jgt (ema15 ! x) (ema60 ! x));
         up = analyze3mEntry candles UP;
         down = analyze3mEntry candles DOWN
     in (signal up \<longleftrightarrow>
           gold i \<and> jle (ema15 ! (i - 1)) (ema60 ! (i - 1)) \<and> (\<exists>x<i. death x))
        \<and> (gold (i - 1) \<longrightarrow> \<not> signal up)
        \<and> (signal up \<longrightarrow>
             entry_action up = BUY
             \<and> (\<exists>a b. a \<le> b \<and> b < i \<and> (\<forall>x. a \<le> x \<and> x \<le> b \<longrightarrow> death x)
                  \<and> (\<forall>x. b < x \<and> x < i \<longrightarrow> \<not> death x) \<and> (a = 0 \<or> \<not> death (a - 1))
                  \<and> sl up \<in> (\<lambda>x. lows ! x) ` insert i {a..b}
                  \<and> ((\<forall>x \<in> insert i {a..b}. lows ! x \<noteq> NaN) \<longrightarrow>
                       (\<forall>x \<in> insert i {a..b}. jle (sl up) (lows ! x)))))
        \<and> (signal down \<longleftrightarrow>
             death i \<and> jge (ema15 ! (i - 1)) (ema60 ! (i - 1)) \<and> (\<exists>x<i. gold x))
        \<and> (death (i - 1) \<longrightarrow> \<not> signal down)
        \<and> (signal down \<longrightarrow>
             entry_action down = SELL
             \<and> (\<exists>a b. a \<le> b \<and> b < i \<and> (\<forall>x. a \<le> x \<and> x \<le> b \<longrightarrow> gold x)
                  \<and> (\<forall>x. b < x \<and> x < i \<longrightarrow> \<not> gold x) \<and> (a = 0 \<or> \<not> gold (a - 1))
                  \<and> sl down \<in> (\<lambda>x. highs ! x) ` insert i {a..b}
                  \<and> ((\<forall>x \<in> insert i {a..b}. highs ! x \<noteq> NaN) \<longrightarrow>
                       (\<forall>x \<in> insert i {a..b}. jle (highs ! x) (sl down)))))
        \<and> \<not> signal (analyze3mEntry candles NEUTRAL)"
proof -
  let ?lows = "map candle_l candles"
  let ?highs = "map candle_h candles"
  let ?e15 = "calcEMAArray (map candle_c candles) (Fin 15)"
  let ?e60 = "calcEMAArray (map candle_c candles) (Fin 60)"
  let ?i = "length candles - 1"
  let ?death = "\<lambda>x. jlt (?e15 ! x) (?e60 ! x)"
  let ?gold = "\<lambda>x. jgt (?e15 ! x) (?e60 ! x)"
  let ?up = "analyze3mEntry candles UP"
  let ?down = "analyze3mEntry candles DOWN"
  let ?scanU = "scanZone ?death jlt ?lows ?i False (?lows ! ?i)"
  let ?scanD = "scanZone ?gold jgt ?highs ?i False (?highs ! ?i)"
  let ?crossU = "?gold ?i \<and> jle (?e15 ! (?i - 1)) (?e60 ! (?i - 1))"
  let ?crossD = "?death ?i \<and> jge (?e15 ! (?i - 1)) (?e60 ! (?i - 1))"

  have fU: "fst ?scanU = (\<exists>x<?i. ?death x)" and fD: "fst ?scanD = (\<exists>x<?i. ?gold x)"
    by (simp_all add: scanZone_found)

  have sigU: "signal ?up = (?crossU \<and> fst ?scanU)"
    and actU: "signal ?up \<Longrightarrow> entry_action ?up = BUY \<and> sl ?up = snd ?scanU"
    unfolding analyze3mEntry_UP [OF assms] Let_def by (simp_all split: if_splits)
  have sigD: "signal ?down = (?crossD \<and> fst ?scanD)"
    and actD: "signal ?down \<Longrightarrow> entry_action ?down = SELL \<and> sl ?down = snd ?scanD"
    unfolding analyze3mEntry_DOWN [OF assms] Let_def by (simp_all split: if_splits)

  have c1: "signal ?up \<longleftrightarrow>
        ?gold ?i \<and> jle (?e15 ! (?i - 1)) (?e60 ! (?i - 1)) \<and> (\<exists>x<?i. ?death x)"
    unfolding sigU fU by blast
  have c2: "?gold (?i - 1) \<longrightarrow> \<not> signal ?up"
    unfolding sigU using jle_not_jlt [of "?e15 ! (?i - 1)" "?e60 ! (?i - 1)"]
    by (auto simp add: jgt_def)
  have c3: "signal ?up \<longrightarrow>
        entry_action ?up = BUY
        \<and> (\<exists>a b. a \<le> b \<and> b < ?i \<and> (\<forall>x. a \<le> x \<and> x \<le> b \<longrightarrow> ?death x)
             \<and> (\<forall>x. b < x \<and> x < ?i \<longrightarrow> \<not> ?death x) \<and> (a = 0 \<or> \<not> ?death (a - 1))
             \<and> sl ?up \<in> (\<lambda>x. ?lows ! x) ` insert ?i {a..b}
             \<and> ((\<forall>x \<in> insert ?i {a..b}. ?lows ! x \<noteq> NaN) \<longrightarrow>
                  (\<forall>x \<in> insert ?i {a..b}. jle (sl ?up) (?lows ! x))))"
  proof
    assume s: "signal ?up"
    then have f: "fst ?scanU" using sigU by simp
    from scanZone_at_cross [OF f]
    obtain a b where ab: "a \<le> b" "b < ?i" "\<forall>x. a \<le> x \<and> x \<le> b \<longrightarrow> ?death x"
        "\<forall>x. b < x \<and> x < ?i \<longrightarrow> \<not> ?death x" "a = 0 \<or> \<not> ?death (a - 1)"
      and m: "snd ?scanU \<in> (\<lambda>x. ?lows ! x) ` insert ?i {a..b}"
      and v: "snd ?scanU =
         foldl (keep_better jlt) (?lows ! ?i) (rev (map ((!) ?lows) [a..<Suc b]))"
      by blast
    have l: "(\<forall>x \<in> insert ?i {a..b}. ?lows ! x \<noteq> NaN) \<longrightarrow>
             (\<forall>x \<in> insert ?i {a..b}. jle (snd ?scanU) (?lows ! x))"
      unfolding v using zone_lowest [of ?i a b ?lows] by blast
    from actU [OF s] have e: "entry_action ?up = BUY" "sl ?up = snd ?scanU" by simp_all
    show "entry_action ?up = BUY
        \<and> (\<exists>a b. a \<le> b \<and> b < ?i \<and> (\<forall>x. a \<le> x \<and> x \<le> b \<longrightarrow> ?death x)
             \<and> (\<forall>x. b < x \<and> x < ?i \<longrightarrow> \<not> ?death x) \<and> (a = 0 \<or> \<not> ?death (a - 1))
             \<and> sl ?up \<in> (\<lambda>x. ?lows ! x) ` insert ?i {a..b}
             \<and> ((\<forall>x \<in> insert ?i {a..b}. ?lows ! x \<noteq> NaN) \<longrightarrow>
                  (\<forall>x \<in> insert ?i {a..b}. jle (sl ?up) (?lows ! x))))"
      unfolding e using ab m l by blast
  qed
  have c4: "signal ?down \<longleftrightarrow>
        ?death ?i \<and> jge (?e15 ! (?i - 1)) (?e60 ! (?i - 1)) \<and> (\<exists>x<?i. ?gold x)"
    unfolding sigD fD by blast
  have c5: "?death (?i - 1) \<longrightarrow> \<not> signal ?down"
    unfolding sigD using jle_not_jlt [of "?e60 ! (?i - 1)" "?e15 ! (?i - 1)"]
    by (auto simp add: jge_def)
  have c6: "signal ?down \<longrightarrow>
        entry_action ?down = SELL
        \<and> (\<exists>a b. a \<le> b \<and> b < ?i \<and> (\<forall>x. a \<le> x \<and> x \<le> b \<longrightarrow> ?gold x)
             \<and> (\<forall>x. b < x \<and> x < ?i \<longrightarrow> \<not> ?gold x) \<and> (a = 0 \<or> \<not> ?gold (a - 1))
             \<and> sl ?down \<in> (\<lambda>x. ?highs ! x) ` insert ?i {a..b}
             \<and> ((\<forall>x \<in> insert ?i {a..b}. ?highs ! x \<noteq> NaN) \<longrightarrow>
                  (\<forall>x \<in> insert ?i {a..b}. jle (?highs ! x) (sl ?down))))"
  proof
    assume s: "signal ?down"
    then have f: "fst ?scanD" using sigD by simp
    from scanZone_at_cross [OF f]
    obtain a b where ab: "a \<le> b" "b < ?i" "\<forall>x. a \<le> x \<and> x \<le> b \<longrightarrow> ?gold x"
        "\<forall>x. b < x \<and> x < ?i \<longrightarrow> \<not> ?gold x" "a = 0 \<or> \<not> ?gold (a - 1)"
      and m: "snd ?scanD \<in> (\<lambda>x. ?highs ! x) ` insert ?i {a..b}"
      and v: "snd ?scanD =
         foldl (keep_better jgt) (?highs ! ?i) (rev (map ((!) ?highs) [a..<Suc b]))"
      by blast
    have l: "(\<forall>x \<in> insert ?i {a..b}. ?highs ! x \<noteq> NaN) \<longrightarrow>
             (\<forall>x \<in> insert ?i {a..b}. jle (?highs ! x) (snd ?scanD))"
      unfolding v using zone_highest [of ?i a b ?highs] by blast
    from actD [OF s] have e: "entry_action ?down = SELL" "sl ?down = snd ?scanD" by simp_all
    show "entry_action ?down = SELL
        \<and> (\<exists>a b. a \<le> b \<and> b < ?i \<and> (\<forall>x. a \<le> x \<and> x \<le> b \<longrightarrow> ?gold x)
             \<and> (\<forall>x. b < x \<and> x < ?i \<longrightarrow> \<not> ?gold x) \<and> (a = 0 \<or> \<not> ?gold (a - 1))
             \<and> sl ?down \<in> (\<lambda>x. ?highs ! x) ` insert ?i {a..b}
             \<and> ((\<forall>x \<in> insert ?i {a..b}. ?highs ! x \<noteq> NaN) \<longrightarrow>
                  (\<forall>x \<in> insert ?i {a..b}. jle (?highs ! x) (sl ?down))))"
      unfolding e using ab m l by blast
  qed
  note c7 = analyze3mEntry_NEUTRAL [of candles]
  show ?thesis
    unfolding Let_def
    by (intro conjI) (rule c1, rule c2, rule c3, rule c4, rule c5, rule c6, rule c7)
qed

lemma scanZone_numeral:
  "scanZone Z better vals (numeral k) found best =
     (if Z (pred_numeral k)
      then scanZone Z better vals (pred_numeral k) True
             (keep_better better best (vals ! pred_numeral k))
      else if found then (found, best)
      else scanZone Z better vals (pred_numeral k) found best)"
  by (simp add: numeral_eq_Suc)

lemma dip_then_jump_series:
  "length dip_then_jump = 100"
  "map candle_l dip_then_jump = Fin 99 # replicate 97 (Fin 99) @ [Fin 89, Fin 90]"
  "calcEMAArray (map candle_c dip_then_jump) (Fin 15) =
     Fin 100 # replicate 97 (Fin 100) @ [Fin (395 / 4), Fin (3565 / 32)]"
  "calcEMAArray (map candle_c dip_then_jump) (Fin 60) =
     Fin 100 # replicate 97 (Fin 100) @ [Fin (6080 / 61), Fin (383120 / 3721)]"
  by (simp_all add: dip_then_jump_def flat_candle_def candle_at_def calcEMAArray_Cons
      ema_from_replicate Let_def jsub_def)

lemma spike_then_drop_series:
  "length spike_then_drop = 100"
  "map candle_h spike_then_drop = Fin 101 # replicate 97 (Fin 101) @ [Fin 111, Fin 110]"
  "calcEMAArray (map candle_c spike_then_drop) (Fin 15) =
     Fin 100 # replicate 97 (Fin 100) @ [Fin (405 / 4), Fin (2875 / 32)]"
  "calcEMAArray (map candle_c spike_then_drop) (Fin 60) =
     Fin 100 # replicate 97 (Fin 100) @ [Fin (6120 / 61), Fin (362300 / 3721)]"
  by (simp_all add: spike_then_drop_def flat_candle_def candle_at_def calcEMAArray_Cons
      ema_from_replicate Let_def jsub_def)

lemma dip_then_jump_entry:
  "analyze3mEntry dip_then_jump UP =
     \<lparr>signal = True, entry_action = BUY, sl = Fin 89, reason = Reason_death_then_gold,
      entry_structure = Structure_gold_zone\<rparr>"
  by (simp add: analyze3mEntry_UP dip_then_jump_series Let_def nth_append jgt_def
      scanZone_numeral keep_better_def)

lemma spike_then_drop_entry:
  "analyze3mEntry spike_then_drop DOWN =
     \<lparr>signal = True, entry_action = SELL, sl = Fin 111, reason = Reason_gold_then_death,
      entry_structure = Structure_death_zone\<rparr>"
  by (simp add: analyze3mEntry_DOWN spike_then_drop_series Let_def nth_append jgt_def jge_def
      scanZone_numeral keep_better_def)
theorem entry_signal_witness:
  "100 \<le> length dip_then_jump
   \<and> signal (analyze3mEntry dip_then_jump UP)
   \<and> entry_action (analyze3mEntry dip_then_jump UP) = BUY
   \<and> sl (analyze3mEntry dip_then_jump UP) = Fin 89
   \<and> 100 \<le> length spike_then_drop
   \<and> signal (analyze3mEntry spike_then_drop DOWN)
   \<and> entry_action (analyze3mEntry spike_then_drop DOWN) = SELL
   \<and> sl (analyze3mEntry spike_then_drop DOWN) = Fin 111"
proof -
  have len: "100 \<le> length dip_then_jump" "100 \<le> length spike_then_drop"
    by (simp_all add: dip_then_jump_series spike_then_drop_series)
  note up = entry_signal [OF len(1), unfolded Let_def, THEN conjunct1]
  note down = entry_signal [OF len(2), unfolded Let_def,
      THEN conjunct2, THEN conjunct2, THEN conjunct2, THEN conjunct1]
  have u: "signal (analyze3mEntry dip_then_jump UP)"
    unfolding up dip_then_jump_series
    by (auto simp add: nth_append jgt_def intro!: exI [of _ 98])
  have d: "signal (analyze3mEntry spike_then_drop DOWN)"
    unfolding down spike_then_drop_series
    by (auto simp add: nth_append jgt_def jge_def intro!: exI [of _ 98])
  show ?thesis
    using len u d by (simp add: dip_then_jump_entry spike_then_drop_entry)
qed

section \<open>The printed stop\<close>

lemma round2_mono: "x \<le> y \<Longrightarrow> round2 x \<le> round2 y"
proof -
  assume xy: "x \<le> y"
  have nonneg: "0 \<le> (of_int \<lfloor>z * 100 + 1 / 2\<rfloor> :: rat)" if "0 \<le> z" for z :: rat
  proof -
    have "(0 :: rat) \<le> z * 100 + 1 / 2" using that by simp
    then have "(0 :: int) \<le> \<lfloor>z * 100 + 1 / 2\<rfloor>" by (simp add: le_floor_iff)
    then show ?thesis by simp
  qed
  consider "0 \<le> x" | "x < 0" "0 \<le> y" | "y < 0" using xy by linarith
  then show ?thesis
  proof cases
    case 1
    then have "0 \<le> y" using xy by simp
    moreover have "\<lfloor>x * 100 + 1 / 2\<rfloor> \<le> \<lfloor>y * 100 + 1 / 2\<rfloor>"
      using xy by (intro floor_mono) simp
    ultimately show ?thesis
      using 1 by (simp add: round2_def divide_right_mono)
  next
    case 2
    have "0 \<le> (of_int \<lfloor>- x * 100 + 1 / 2\<rfloor> :: rat)"
      using nonneg [of "- x"] 2 by simp
    moreover have "0 \<le> (of_int \<lfloor>y * 100 + 1 / 2\<rfloor> :: rat)"
      using nonneg [of y] 2 by simp
    ultimately have "round2 x \<le> 0" "0 \<le> round2 y"
      using 2 by (simp_all add: round2_def)
    then show ?thesis by linarith
  next
    case 3
    then have "x < 0" using xy by simp
    moreover have "\<lfloor>- y * 100 + 1 / 2\<rfloor> \<le> \<lfloor>- x * 100 + 1 / 2\<rfloor>"
      using xy by (intro floor_mono) simp
    ultimately show ?thesis
      using 3 by (simp add: round2_def divide_right_mono)
  qed
qed

lemma round2_cents: "round2 (of_int n / 100) = of_int n / 100"
proof -
  have h: "\<lfloor>(1 :: rat) / 2\<rfloor> = 0"
    by (rule floor_unique) simp_all
  show ?thesis
    by (simp add: round2_def h)
qed

text \<open>
  The guard compares the candidate; the decision carries the candidate printed with two
  decimals. When the committed stop and the price are amounts in whole cents, a candidate
  that lies strictly between them is printed as an amount that is not below the committed
  stop and not above the price (it may be equal to either).
\<close>

lemma printed_stop_between:
  assumes "jlt (Fin (of_int n / 100)) (Fin t)" and "jlt (Fin t) (Fin (of_int m / 100))"
  shows "toFixed2 (Fin t) = Fin (round2 t)
         \<and> of_int n / 100 \<le> round2 t \<and> round2 t \<le> of_int m / 100"
proof -
  from assms have "of_int n / 100 \<le> t" "t \<le> of_int m / 100" by simp_all
  from round2_mono [OF this(1)] round2_mono [OF this(2)] show ?thesis
    by (simp add: round2_cents)
qed

end
